theory Spec2Isabelle
  imports Main "HOL-Library.Char_ord" "HOL-Library.List_Lexorder" "HOL-Library.AList"
begin

section \<open>Data model\<close>

text \<open>
  The project layer (\<^verbatim>\<open>src/project/__init__.py\<close>, class \<^verbatim>\<open>SConsProject\<close>) works on
  Python objects that reference each other: library checkers, SCons environments and
  the project itself. Objects are modelled by addresses into explicit stores, so that
  aliasing (the same checker requested twice, an environment and its clone) is visible.
\<close>

type_synonym addr = nat

text \<open>Values held by the construction variables of an SCons environment.\<close>

datatype val =
    Str string | Bool bool | Strs "string list" | Libs "addr list" | Lists "string list list"

text \<open>An SCons \<^verbatim>\<open>Environment\<close> seen as its dictionary of construction variables.\<close>

type_synonym env = "string \<Rightarrow> val option"

text \<open>The shared \<^verbatim>\<open>Variables\<close> registry (\<^verbatim>\<open>self.opts\<close>): the names of the declared options.\<close>

type_synonym opts = "string list"

text \<open>
  A library checker object. The base class \<^verbatim>\<open>BaseLibChecker\<close> is not part of the
  sources at hand, so the methods the project calls on a checker are fields of the
  record: each one is given the environment dictionary (or the option registry) it is
  called with and returns its result together with the mutated dictionary. A
  dependency list may hold \<^verbatim>\<open>None\<close>, which \<^verbatim>\<open>internFindLibDependencies\<close> tests for.
  The handle \<open>sconsNode\<close> is \<^verbatim>\<open>None\<close> or the nodes of the target, named by the target
  they build; \<open>Some []\<close> is a handle that is set but empty (an empty node list, an
  empty string).
\<close>

record lib =
  name :: string
  id' :: nat
  dependencies :: "addr option list"
  sconsNode :: "string option"
  checkDone :: bool
  error :: string
  enabled :: "env \<Rightarrow> bool"
  initOptions :: "opts \<Rightarrow> bool \<times> opts"
  initEnv :: "env \<Rightarrow> env"
  configure :: "env \<Rightarrow> bool \<times> env"
  check :: "env \<Rightarrow> bool \<times> env"
  postconfigure :: "env \<Rightarrow> nat \<Rightarrow> env"

text \<open>\<^verbatim>\<open>if lib.sconsNode:\<close> is the Python truth value of the handle.\<close>

fun truthy_node :: "string option \<Rightarrow> bool" where
  "truthy_node None = False"
| "truthy_node (Some n) = (n \<noteq> [])"

text \<open>
  The calls the properties below speak about are recorded in a trace:
  \<^item> \<open>Probe l\<close>: \<^verbatim>\<open>checkLibrary\<close> went past its memo tests for \<open>l\<close> and built the
    temporary environment and configure context of a real check;
  \<^item> \<open>CheckLibrary l b\<close>: a call \<^verbatim>\<open>checkLibrary(l)\<close> returned \<open>b\<close>;
  \<^item> \<open>Configure l e b\<close>, \<open>Check l e b\<close>: \<^verbatim>\<open>l.configure\<close>, \<^verbatim>\<open>l.check\<close> were called on the
    environment at address \<open>e\<close> and returned \<open>b\<close>;
  \<^item> \<open>Context e\<close>: \<^verbatim>\<open>Configure()\<close> was called on the environment at address \<open>e\<close>.
\<close>

datatype event =
    Probe addr
  | CheckLibrary addr bool
  | Configure addr addr bool
  | Check addr addr bool
  | Context addr

datatype error =
    RuntimeError string
  | ValueError string "string list" "string list"
  | RecursionError
  | NameError string
  | AttributeError string
  | UnboundLocalError string
  | SystemExit nat

text \<open>
  The project object together with the stores of the objects it reaches.
  \<open>envs\<close> is the store of environments (\<open>next_env\<close> the next free address), \<open>heap\<close>
  the store of library checkers (\<open>next_lib\<close> the next free address). \<open>env\<close> is the address
  of the shared base environment \<^verbatim>\<open>self.env\<close>. \<open>opt_clean\<close> and \<open>opt_help\<close> are what
  \<^verbatim>\<open>SCons.Script.GetOption\<close> answers for \<^verbatim>\<open>'clean'\<close> and \<^verbatim>\<open>'help'\<close>; \<open>Update\<close> and
  \<open>PrependENVPath\<close> are the SCons operations of these names, which live outside the
  sources at hand. \<open>Alias\<close> is SCons' table of aliases, \<open>artifacts\<close> the list of the
  builder calls made so far (builder, targets, sources) and \<open>Default\<close> the default
  targets; an SCons node is named by the target it builds. \<open>libs_namespace\<close> is the namespace
  \<^verbatim>\<open>self.libs\<close> of the checkers known by name. \<open>scanFiles\<close> (directories, accept, reject,
  recursive) and \<open>getDirs0\<close> (\<^verbatim>\<open>self.getDirs(0)\<close>) are what the file system answers.
  \<open>BaseLibChecker\<close> holds the methods and attributes a checker inherits from the base
  class. \<open>externEnvFlags_default\<close> holds, for \<^verbatim>\<open>StaticLibrary\<close> and for \<^verbatim>\<open>SharedLibrary\<close>, the
  dictionary object that is the default value \<^verbatim>\<open>{}\<close> of the parameter \<^verbatim>\<open>externEnvFlags\<close>:
  Python makes it once, and each call that does not pass the argument works on this one
  object. \<open>externEnvFlags_holders\<close> lists the checkers that keep a reference to it, with
  their include directories.

  The module is Python 3 code: its \<^verbatim>\<open>print\<close> calls have several arguments and its imports
  are relative. A character is a code point below 256.
\<close>

record project =
  env :: addr
  envs :: "addr \<Rightarrow> env"
  next_env :: addr
  heap :: "addr \<Rightarrow> lib"
  next_lib :: addr
  opts :: opts
  commonLibs :: "addr list"
  libs_error :: "addr list"
  allLibsChecked :: "string list"
  removedFromDefaultTargets :: "string \<Rightarrow> string list option"
  allTargets :: "(string \<times> (string option \<times> addr option)) list"
  Alias :: "string \<Rightarrow> string list"
  stdout :: "string list"
  trace :: "event list"
  opt_clean :: bool
  opt_help :: bool
  Update :: "opts \<Rightarrow> env \<Rightarrow> env"
  PrependENVPath :: "string \<Rightarrow> val option \<Rightarrow> env \<Rightarrow> env"
  libs_namespace :: "string \<Rightarrow> addr option"
  artifacts :: "(string \<times> string list \<times> string list) list"
  Default :: "string list"
  scanFiles :: "string list \<Rightarrow> string list \<Rightarrow> string list \<Rightarrow> bool \<Rightarrow> string list"
  getDirs0 :: "string list"
  BaseLibChecker :: lib
  externEnvFlags_default :: "string \<Rightarrow> (string \<times> string list) list"
  externEnvFlags_holders :: "string \<Rightarrow> (addr \<times> string list) list"

text \<open>
  Python truth value of what \<^verbatim>\<open>env[key]\<close> holds. The options read by the project are
  declared for every environment by \<^verbatim>\<open>initOptions\<close>; the \<^verbatim>\<open>KeyError\<close> of a missing key
  is not modelled, a missing key reads as a false value.
\<close>

fun truthy :: "val option \<Rightarrow> bool" where
  "truthy None = False"
| "truthy (Some (Bool b)) = b"
| "truthy (Some (Str s)) = (s \<noteq> [])"
| "truthy (Some (Strs l)) = (l \<noteq> [])"
| "truthy (Some (Libs l)) = (l \<noteq> [])"
| "truthy (Some (Lists l)) = (l \<noteq> [])"

fun str_of :: "val option \<Rightarrow> string" where
  "str_of (Some (Str s)) = s"
| "str_of _ = []"

fun strs_of :: "val option \<Rightarrow> string list" where
  "strs_of (Some (Strs l)) = l"
| "strs_of _ = []"

fun libs_of :: "val option \<Rightarrow> addr list" where
  "libs_of (Some (Libs l)) = l"
| "libs_of _ = []"

definition setitem :: "project \<Rightarrow> addr \<Rightarrow> string \<Rightarrow> val \<Rightarrow> project" where
  "setitem st e k v = st\<lparr>envs := (envs st)(e := (envs st e)(k \<mapsto> v))\<rparr>"

definition stdout_write :: "project \<Rightarrow> string \<Rightarrow> project" where
  "stdout_write st s = st\<lparr>stdout := stdout st @ [s]\<rparr>"

definition emit :: "project \<Rightarrow> event \<Rightarrow> project" where
  "emit st ev = st\<lparr>trace := trace st @ [ev]\<rparr>"

text \<open>\<^verbatim>\<open>Clone()\<close>: a new environment object holding a copy of the dictionary.\<close>

definition Clone :: "project \<Rightarrow> addr \<Rightarrow> addr \<times> project" where
  "Clone st e =
     (next_env st,
      st\<lparr>envs := (envs st)(next_env st := envs st e), next_env := Suc (next_env st)\<rparr>)"

section \<open>Dependency resolution\<close>

text \<open>
  \<^verbatim>\<open>uniqLibs\<close>: the loop over \<^verbatim>\<open>allLibs\<close> with its two accumulators \<^verbatim>\<open>libs\<close> and
  \<^verbatim>\<open>names\<close>.
\<close>

fun uniqLibs_loop ::
  "(addr \<Rightarrow> lib) \<Rightarrow> (addr \<times> nat) list \<Rightarrow> (addr \<times> nat) list \<Rightarrow> (string \<times> nat) list
     \<Rightarrow> (addr \<times> nat) list" where
  "uniqLibs_loop h [] libs names = libs"
| "uniqLibs_loop h ((s, level) # rest) libs names =
     (if (name (h s), id' (h s)) \<notin> set names
      then uniqLibs_loop h rest (libs @ [(s, level)]) (names @ [(name (h s), id' (h s))])
      else uniqLibs_loop h rest libs names)"

definition uniqLibs :: "(addr \<Rightarrow> lib) \<Rightarrow> (addr \<times> nat) list \<Rightarrow> (addr \<times> nat) list" where
  "uniqLibs h allLibs = uniqLibs_loop h allLibs [] []"

text \<open>
  \<^verbatim>\<open>ll.extend(...)\<close> over the results of the recursive calls; a call that exhausted the
  recursion limit makes the whole loop fail.
\<close>

fun extend_all :: "'a list option list \<Rightarrow> 'a list option" where
  "extend_all [] = Some []"
| "extend_all (None # rs) = None"
| "extend_all (Some r # rs) =
     (case extend_all rs of None \<Rightarrow> None | Some ll \<Rightarrow> Some (r @ ll))"

text \<open>
  \<^verbatim>\<open>internFindLibDependencies\<close>. The source does not detect cycles; on a cyclic graph
  the recursion ends in Python's \<^verbatim>\<open>RecursionError\<close>. The first argument is the number
  of frames left; \<open>None\<close> is the exhausted limit.
\<close>

fun internFindLibDependencies ::
  "nat \<Rightarrow> (addr \<Rightarrow> lib) \<Rightarrow> addr option \<Rightarrow> nat \<Rightarrow> (addr \<times> nat) list option" where
  "internFindLibDependencies 0 h l level = None"
| "internFindLibDependencies (Suc n) h None level = Some []"
| "internFindLibDependencies (Suc n) h (Some a) level =
     (case extend_all (map (\<lambda>l. internFindLibDependencies n h l (level + 1))
                           (dependencies (h a))) of
        None \<Rightarrow> None
      | Some ll \<Rightarrow> Some (ll @ [(a, level)]))"

text \<open>
  \<^verbatim>\<open>findLibsDependencies\<close>, on the list of libraries (a caller passing a single
  library passes the one-element list, which is what the source makes of it).
\<close>

definition findLibsDependencies ::
  "nat \<Rightarrow> (addr \<Rightarrow> lib) \<Rightarrow> addr list \<Rightarrow> (addr \<times> nat) list option" where
  "findLibsDependencies limit h libs =
     extend_all (map (\<lambda>lib. extend_all (map (\<lambda>l. internFindLibDependencies limit h l 0)
                                             (dependencies (h lib)))) libs)"

section \<open>Calls into the library checkers\<close>

text \<open>
  A method of a checker is applied to the dictionary of the environment it is given and
  the result is stored back at the same address: the methods mutate their argument in
  place. \<^verbatim>\<open>configure\<close> and \<^verbatim>\<open>check\<close> leave an event in the trace.
\<close>

definition call_initOptions :: "project \<Rightarrow> addr \<Rightarrow> bool \<times> project" where
  "call_initOptions st l =
     (case initOptions (heap st l) (opts st) of (b, os) \<Rightarrow> (b, st\<lparr>opts := os\<rparr>))"

definition call_initEnv :: "project \<Rightarrow> addr \<Rightarrow> addr \<Rightarrow> project" where
  "call_initEnv st l e = st\<lparr>envs := (envs st)(e := initEnv (heap st l) (envs st e))\<rparr>"

definition call_configure :: "project \<Rightarrow> addr \<Rightarrow> addr \<Rightarrow> bool \<times> project" where
  "call_configure st l e =
     (case configure (heap st l) (envs st e) of
        (b, d) \<Rightarrow> (b, emit (st\<lparr>envs := (envs st)(e := d)\<rparr>) (Configure l e b)))"

definition call_check :: "project \<Rightarrow> addr \<Rightarrow> addr \<Rightarrow> bool \<times> project" where
  "call_check st l e =
     (case check (heap st l) (envs st e) of
        (b, d) \<Rightarrow> (b, emit (st\<lparr>envs := (envs st)(e := d)\<rparr>) (Check l e b)))"

definition call_postconfigure :: "project \<Rightarrow> addr \<Rightarrow> addr \<Rightarrow> nat \<Rightarrow> project" where
  "call_postconfigure st l e level =
     st\<lparr>envs := (envs st)(e := postconfigure (heap st l) (envs st e) level)\<rparr>"

section \<open>Options\<close>

definition needConfigure :: "project \<Rightarrow> bool" where
  "needConfigure st = (\<not> opt_clean st \<and> \<not> opt_help st)"

definition needCheck :: "project \<Rightarrow> bool" where
  "needCheck st = truthy (envs st (env st) ''check_libs'')"

definition call_PrependENVPath :: "project \<Rightarrow> addr \<Rightarrow> string \<Rightarrow> val option \<Rightarrow> project" where
  "call_PrependENVPath st e k v =
     st\<lparr>envs := (envs st)(e := PrependENVPath st k v (envs st e))\<rparr>"

definition call_Update :: "project \<Rightarrow> addr \<Rightarrow> project" where
  "call_Update st e = st\<lparr>envs := (envs st)(e := Update st (opts st) (envs st e))\<rparr>"

definition color_keys :: "string list" where
  "color_keys =
     [''color_clear'', ''color_red'', ''color_redB'', ''color_green'', ''color_blue'',
      ''color_blueB'', ''color_yellow'', ''color_brown'', ''color_violet'',
      ''color_autoconf'', ''color_header'', ''color_title'', ''color_compile'',
      ''color_link'', ''color_install'', ''color_info'', ''color_success'',
      ''color_warning'', ''color_fail'', ''color_error'']"

definition applyOptionsOnEnv :: "project \<Rightarrow> addr \<Rightarrow> project" where
  "applyOptionsOnEnv st e =
     (let st1 = call_PrependENVPath st e ''INCLUDE'' (envs st (env st) ''ENVINC'');
          st2 = call_PrependENVPath st1 e ''PATH'' (envs st1 (env st1) ''ENVPATH'');
          st3 = call_PrependENVPath st2 e ''LIB'' (envs st2 (env st2) ''ENVLIBPATH'')
      in if \<not> truthy (envs st3 e ''colors'')
         then fold (\<lambda>c s. setitem s e c (Str [])) color_keys st3
         else st3)"

section \<open>Checking a library\<close>

definition set_checkDone :: "project \<Rightarrow> addr \<Rightarrow> project" where
  "set_checkDone st l = st\<lparr>heap := (heap st)(l := (heap st l)\<lparr>checkDone := True\<rparr>)\<rparr>"

text \<open>\<^verbatim>\<open>if lib not in self.libs_error: self.libs_error.append(lib)\<close>\<close>

definition append_libs_error :: "project \<Rightarrow> addr \<Rightarrow> project" where
  "append_libs_error st l =
     (if l \<notin> set (libs_error st) then st\<lparr>libs_error := libs_error st @ [l]\<rparr> else st)"

text \<open>
  The part of \<^verbatim>\<open>checkLibrary\<close> below its memo tests, from \<^verbatim>\<open>check_env = self.env.Clone()\<close>
  to the end, given the deduplicated dependencies.
\<close>

definition checkLibrary_probe ::
  "project \<Rightarrow> addr \<Rightarrow> (addr \<times> nat) list \<Rightarrow> (error + bool) \<times> project" where
  "checkLibrary_probe st l deps =
     (let st0 = emit st (Probe l);
          (check_env, st1) = Clone st0 (env st0);
          st2 = fold (\<lambda>(a, level) s. snd (call_initOptions s a)) deps st1;
          (ok, st3) = call_initOptions st2 l;
          st4 = (if \<not> ok then append_libs_error st3 l else st3);
          st5 = call_Update st4 check_env;
          st6 = applyOptionsOnEnv st5 check_env;
          st7 = fold (\<lambda>(a, level) s. call_initEnv s a check_env) deps st6;
          st8 = call_initEnv st7 l check_env;
          st9 = fold (\<lambda>(a, level) s. snd (call_configure s a check_env)) deps st8;
          (c1, st10) = call_configure st9 l check_env;
          st11 = emit st10 (Context check_env);
          st12 = fold (\<lambda>(a, level) s. snd (call_check s a check_env)) deps st11;
          (c2, st13) = call_check st12 l check_env;
          st14 = set_checkDone st13 l;
          st15 = st14\<lparr>allLibsChecked := allLibsChecked st14 @ [name (heap st14 l)]\<rparr>
      in (Inr (c1 \<and> c2), st15))"

definition checkLibrary :: "nat \<Rightarrow> project \<Rightarrow> addr \<Rightarrow> (error + bool) \<times> project" where
  "checkLibrary limit st l =
     (if checkDone (heap st l) then (Inr True, st)
      else if truthy_node (sconsNode (heap st l)) then (Inr True, st)
      else if name (heap st l) \<in> set (allLibsChecked st)
        then (Inr True, set_checkDone st l)
      else if \<not> needCheck st
        then (Inr True,
              (set_checkDone st l)\<lparr>allLibsChecked := allLibsChecked st @ [name (heap st l)]\<rparr>)
      else case findLibsDependencies limit (heap st) [l] of
             None \<Rightarrow> (Inl RecursionError, st)
           | Some ll \<Rightarrow> checkLibrary_probe st l (uniqLibs (heap st) ll))"

section \<open>Building an environment\<close>

text \<open>
  The first loop of \<^verbatim>\<open>appendLibsToEnv\<close>: for each requested library its dependencies,
  then the library itself at level 0.
\<close>

fun allLibs_loop :: "nat \<Rightarrow> (addr \<Rightarrow> lib) \<Rightarrow> addr list \<Rightarrow> (addr \<times> nat) list option" where
  "allLibs_loop limit h [] = Some []"
| "allLibs_loop limit h (eachlib # rest) =
     (case findLibsDependencies limit h [eachlib] of
        None \<Rightarrow> None
      | Some libdeps \<Rightarrow>
          (case allLibs_loop limit h rest of
             None \<Rightarrow> None
           | Some r \<Rightarrow> Some (libdeps @ [(eachlib, 0)] @ r)))"

definition without_message :: "string \<Rightarrow> string \<Rightarrow> string" where
  "without_message target_name lib_name =
     ''Target '' @ [CHR 0x22] @ target_name @ [CHR 0x22] @ '' compiled without '' @
     [CHR 0x22] @ lib_name @ [CHR 0x22] @ '' library.'' @ [CHR 0x0A]"

text \<open>
  The loop of \<^verbatim>\<open>appendLibsToEnv\<close> under \<^verbatim>\<open>if self.needConfigure()\<close>, with its local
  list \<^verbatim>\<open>libs_error\<close> as accumulator.
\<close>

fun configure_loop ::
  "nat \<Rightarrow> string \<Rightarrow> addr \<Rightarrow> (addr \<times> nat) list \<Rightarrow> addr list \<Rightarrow> project
     \<Rightarrow> (error + addr list) \<times> project" where
  "configure_loop limit nm e [] errs st = (Inr errs, st)"
| "configure_loop limit nm e ((l, level) # rest) errs st =
     (if \<not> enabled (heap st l) (envs st e)
      then configure_loop limit nm e rest errs
             (stdout_write st (without_message nm (name (heap st l))))
      else case checkLibrary limit st l of
             (Inl err, st1) \<Rightarrow> (Inl err, st1)
           | (Inr ok, st1) \<Rightarrow>
               (let st2 = emit st1 (CheckLibrary l ok);
                    (c, st3) = call_configure st2 l e;
                    (k, st4) = (if \<not> c then (False, st3)
                                else call_check (emit st3 (Context e)) l e);
                    checkStatus = (ok \<and> c \<and> k)
                in configure_loop limit nm e rest
                     (if \<not> checkStatus then errs @ [l] else errs) st4))"

text \<open>
  The block of \<^verbatim>\<open>appendLibsToEnv\<close> under \<^verbatim>\<open>if self.needConfigure()\<close>: the loop, then the
  names of the failed libraries appended to \<^verbatim>\<open>env['SconsProject_missingDependencies']\<close>
  and the failed libraries recorded in \<^verbatim>\<open>self.libs_error\<close>.
\<close>

definition configure_block ::
  "nat \<Rightarrow> string \<Rightarrow> addr \<Rightarrow> (addr \<times> nat) list \<Rightarrow> project \<Rightarrow> (error + unit) \<times> project" where
  "configure_block limit nm e allLibs st =
     (case configure_loop limit nm e allLibs [] st of
        (Inl err, s) \<Rightarrow> (Inl err, s)
      | (Inr errs, s) \<Rightarrow>
          (let s1 = (if envs s e ''SconsProject_missingDependencies'' = None
                     then setitem s e ''SconsProject_missingDependencies'' (Strs [])
                     else s);
               s2 = setitem s1 e ''SconsProject_missingDependencies''
                      (Strs (strs_of (envs s1 e ''SconsProject_missingDependencies'')
                             @ map (\<lambda>l. name (heap s1 l)) errs));
               s3 = fold (\<lambda>l t. append_libs_error t l) errs s2
           in (Inr (), s3)))"

definition appendLibsToEnv ::
  "nat \<Rightarrow> project \<Rightarrow> addr \<Rightarrow> addr list \<Rightarrow> string \<Rightarrow> (error + addr) \<times> project" where
  "appendLibsToEnv limit st e libs nm =
     (if libs = [] then (Inr e, st)
      else
        let st1 = stdout_write st (str_of (envs st (env st) ''color_autoconf''));
            st2 = (if envs st1 e ''SconsProjectLibraries'' \<noteq> None
                   then setitem st1 e ''SconsProjectLibraries''
                          (Libs (libs_of (envs st1 e ''SconsProjectLibraries'') @ libs))
                   else setitem st1 e ''SconsProjectLibraries'' (Libs libs))
        in case allLibs_loop limit (heap st2) libs of
             None \<Rightarrow> (Inl RecursionError, st2)
           | Some raw \<Rightarrow>
               (let allLibs = uniqLibs (heap st2) raw;
                    st3 = fold (\<lambda>(l, level) s.
                                 case call_initOptions s l of
                                   (ok, s') \<Rightarrow> if \<not> ok then append_libs_error s' l else s')
                               allLibs st2;
                    st4 = call_Update st3 e;
                    st5 = applyOptionsOnEnv st4 e;
                    st6 = fold (\<lambda>(l, level) s. call_initEnv s l e) allLibs st5
                in case (if needConfigure st6
                         then configure_block limit nm e allLibs st6
                         else (Inr (), st6)) of
                     (Inl err, st7) \<Rightarrow> (Inl err, st7)
                   | (Inr u, st7) \<Rightarrow>
                       (let st8 = fold (\<lambda>(l, level) s. call_postconfigure s l e level) allLibs st7;
                            st9 = stdout_write st8 (str_of (envs st8 (env st8) ''color_clear''))
                        in (Inr e, st9))))"

text \<open>
  \<^verbatim>\<open>createEnv\<close>: the loop \<^verbatim>\<open>new_libs.insert(0, lib)\<close> puts each common library in front.
\<close>

definition createEnv ::
  "nat \<Rightarrow> project \<Rightarrow> addr list \<Rightarrow> string \<Rightarrow> (error + addr) \<times> project" where
  "createEnv limit st libs nm =
     (let (new_env, st1) = Clone st (env st);
          new_libs = fold (\<lambda>lib ls. lib # ls) (commonLibs st1) libs
      in appendLibsToEnv limit st1 new_env new_libs nm)"

section \<open>Declaring a target\<close>

definition declareTarget :: "project \<Rightarrow> addr \<Rightarrow> string \<Rightarrow> string option \<Rightarrow> project" where
  "declareTarget st localEnv target targetName =
     (let missingDeps = (case envs st localEnv ''SconsProject_missingDependencies'' of
                           None \<Rightarrow> Strs [] | Some v \<Rightarrow> v)
      in if truthy (Some missingDeps)
         then st\<lparr>removedFromDefaultTargets :=
                  (removedFromDefaultTargets st)
                    ((if targetName \<noteq> None \<and> targetName \<noteq> Some [] then the targetName else target)
                       \<mapsto> strs_of (Some missingDeps))\<rparr>
         else st\<lparr>Alias := (Alias st)(''all'' := Alias st ''all'' @ [target])\<rparr>)"

section \<open>End of the run\<close>

text \<open>
  \<^verbatim>\<open>str.split()\<close>: the words between runs of white space, which below 256 are the code
  points 9 to 13, 28 to 32, 133 and 160.
\<close>

definition is_space :: "char \<Rightarrow> bool" where
  "is_space c =
     (c \<in> set [CHR 0x09, CHR 0x0A, CHR 0x0B, CHR 0x0C, CHR 0x0D, CHR 0x1C, CHR 0x1D, CHR 0x1E,
                CHR 0x1F, CHR 0x20, CHR 0x85, CHR 0xA0])"

fun split_from :: "string \<Rightarrow> string \<Rightarrow> string list" where
  "split_from w [] = (if w = [] then [] else [w])"
| "split_from w (c # cs) =
     (if is_space c then (if w = [] then split_from [] cs else w # split_from [] cs)
      else split_from (w @ [c]) cs)"

definition split' :: "string \<Rightarrow> string list" where
  "split' s = split_from [] s"

text \<open>\<^verbatim>\<open>sep.join(xs)\<close>\<close>

fun join :: "string \<Rightarrow> string list \<Rightarrow> string" where
  "join sep [] = []"
| "join sep [x] = x"
| "join sep (x # y # ys) = x @ sep @ join sep (y # ys)"

text \<open>\<^verbatim>\<open>print\<close> of one line.\<close>

definition print :: "project \<Rightarrow> string \<Rightarrow> project" where
  "print st s = stdout_write st (s @ [CHR 0x0A])"

definition call_Alias :: "project \<Rightarrow> string \<Rightarrow> string list \<Rightarrow> project" where
  "call_Alias st a ts = st\<lparr>Alias := (Alias st)(a := Alias st a @ ts)\<rparr>"

text \<open>The body of the loop \<^verbatim>\<open>for lib in self.libs_error\<close> of \<^verbatim>\<open>end\<close>.\<close>

definition print_lib_error :: "project \<Rightarrow> addr \<Rightarrow> project" where
  "print_lib_error s l =
     (let s1 = print s (''Error in '' @ [CHR 0x27] @ name (heap s l) @ [CHR 0x27]
                        @ '' library :'')
      in if error (heap s1 l) \<noteq> []
         then print s1 ([CHR 0x09] @ '' '' @ error (heap s1 l))
         else s1)"

definition configure_errors_banner :: "string list" where
  "configure_errors_banner =
     [[], [], [],
      ''    Errors during the configure. Some external libraries are missing.'',
      ''    See '' @ [CHR 0x22] @ ''config.log'' @ [CHR 0x22] @ '' file to check the errors.'',
      [],
      ''    You could ignore these errors and build the possible targets.'',
      ''        >>> scons ignore_configure_errors=1'',
      [], []]"

text \<open>
  \<^verbatim>\<open>end\<close>, without the Visual Studio solution of the Windows platform. The exception
  \<^verbatim>\<open>SystemExit\<close> stands for \<^verbatim>\<open>SCons.Script.Exit(1)\<close>.
\<close>

definition end' :: "project \<Rightarrow> (error + unit) \<times> project" where
  "end' st =
     (let st1 = call_Alias st ''targets'' [''always''];
          r = (if libs_error st1 \<noteq> []
               then
                 (let st2 = stdout_write st1 (str_of (envs st1 (env st1) ''color_error''));
                      st3 = fold (\<lambda>l s. print_lib_error s l) (libs_error st2) st2;
                      st4 = stdout_write st3 (str_of (envs st3 (env st3) ''color_clear''))
                  in if \<not> truthy (envs st4 (env st4) ''ignore_configure_errors'')
                     then (Inl (SystemExit 1),
                           fold (\<lambda>m s. print s m) configure_errors_banner st4)
                     else (Inr (), stdout_write st4 (str_of (envs st4 (env st4) ''color_clear''))))
               else (Inr (), st1))
      in case r of
           (Inl err, st5) \<Rightarrow> (Inl err, st5)
         | (Inr u, st5) \<Rightarrow>
             (let st6 = fold (\<lambda>v s. case v of [] \<Rightarrow> s | a # ts \<Rightarrow> call_Alias s a ts)
                          (case envs st5 (env st5) ''aliases'' of Some (Lists vs) \<Rightarrow> vs | _ \<Rightarrow> [])
                          st5;
                  st7 = call_Alias st6 ''test'' [''unittest'', ''scripttest''];
                  st8 = st7\<lparr>Default :=
                          (case envs st7 (env st7) ''default'' of
                             Some (Str d) \<Rightarrow> split' d
                           | v \<Rightarrow> strs_of v)\<rparr>
              in (Inr (), st8)))"

section \<open>Target declarations\<close>

text \<open>
  The SCons operations \<^verbatim>\<open>AppendUnique\<close>, \<^verbatim>\<open>PrependUnique\<close>, \<^verbatim>\<open>Append\<close> and \<^verbatim>\<open>Replace\<close> on a
  list-valued construction variable, and their keyword form on a dictionary of flags.
\<close>

definition AppendUnique :: "string \<Rightarrow> string list \<Rightarrow> env \<Rightarrow> env" where
  "AppendUnique k vs d =
     d(k \<mapsto> Strs (strs_of (d k) @ filter (\<lambda>x. x \<notin> set (strs_of (d k))) vs))"

definition PrependUnique :: "string \<Rightarrow> string list \<Rightarrow> env \<Rightarrow> env" where
  "PrependUnique k vs d =
     d(k \<mapsto> Strs (filter (\<lambda>x. x \<notin> set (strs_of (d k))) vs @ strs_of (d k)))"

definition Append :: "string \<Rightarrow> string list \<Rightarrow> env \<Rightarrow> env" where
  "Append k vs d = d(k \<mapsto> Strs (strs_of (d k) @ vs))"

definition Replace :: "string \<Rightarrow> string list \<Rightarrow> env \<Rightarrow> env" where
  "Replace k vs d = d(k \<mapsto> Strs vs)"

definition AppendUnique_flags :: "(string \<times> string list) list \<Rightarrow> env \<Rightarrow> env" where
  "AppendUnique_flags flags d = fold (\<lambda>(k, vs) d'. AppendUnique k vs d') flags d"

definition Replace_flags :: "(string \<times> string list) list \<Rightarrow> env \<Rightarrow> env" where
  "Replace_flags flags d = fold (\<lambda>(k, vs) d'. Replace k vs d') flags d"

text \<open>
  \<^verbatim>\<open>InternalLibChecker\<close> (\<^verbatim>\<open>src/autoconf/_internal.py\<close>): the constructor and the methods
  the class defines; the others are inherited from the base class.
\<close>

definition InternalLibChecker_configure ::
  "string list \<Rightarrow> (string \<times> string list) list \<Rightarrow> env \<Rightarrow> bool \<times> env" where
  "InternalLibChecker_configure incs envFlags d =
     (let d1 = (if incs \<noteq> [] then AppendUnique ''CPPPATH'' incs d else d);
          d2 = (if envFlags \<noteq> [] then AppendUnique_flags envFlags d1 else d1)
      in (True, d2))"

definition InternalLibChecker ::
  "lib \<Rightarrow> string \<Rightarrow> string \<Rightarrow> string list \<Rightarrow> (string \<times> string list) list \<Rightarrow> addr list
     \<Rightarrow> string option \<Rightarrow> string list \<Rightarrow> lib" where
  "InternalLibChecker base lb nm incs envFlags deps node addSources =
     base\<lparr>name := (if nm \<noteq> [] then nm else lb),
          dependencies := map Some deps,
          sconsNode := node,
          enabled := (\<lambda>d. True),
          initOptions := (\<lambda>os. (True, os)),
          configure := InternalLibChecker_configure incs envFlags,
          postconfigure := (\<lambda>d level.
             let d1 = PrependUnique ''LIBS'' [lb] d
             in if level = 0 \<and> addSources \<noteq> [] then Append ''ADDSRC'' addSources d1 else d1)\<rparr>"

text \<open>\<^verbatim>\<open>appendDict\<close> on dictionaries of list-valued flags.\<close>

fun appendDict ::
  "(string \<times> string list) list \<Rightarrow> (string \<times> string list) list \<Rightarrow> (string \<times> string list) list" where
  "appendDict dst [] = dst"
| "appendDict dst ((k, v) # src) =
     appendDict (case map_of dst k of
                   Some old \<Rightarrow> map (\<lambda>(k', v'). if k' = k then (k', v' @ v) else (k', v')) dst
                 | None \<Rightarrow> dst @ [(k, v)]) src"

text \<open>
  The arguments of the target declarations. Installation directories, precompiled
  headers, the Visual Studio project and the position-independent variant of a static
  library are left out: they set construction variables and build-graph edges only.
\<close>

record args =
  sources_arg :: "string list"
  dirs_arg :: "string list"
  libraries_arg :: "addr list"
  execLibraries_arg :: "addr list"
  env_arg :: "addr option"
  includes_arg :: "string list"
  localEnvFlags_arg :: "(string \<times> string list) list"
  replaceLocalEnvFlags_arg :: "(string \<times> string list) list"
  externEnvFlags_arg :: "(string \<times> string list) list option"
  globalEnvFlags_arg :: "(string \<times> string list) list"
  envFlags_arg :: "(string \<times> string list) list"
  procEnvFlags_arg :: "(string \<times> string list) list"
  dependencies_arg :: "addr list"
  build_dependencies_arg :: "string list"
  accept_arg :: "string list"
  reject_arg :: "string list"
  recursive_arg :: bool
  checkDependencies_arg :: bool
  public_arg :: bool
  publicName_arg :: "string option"

text \<open>
  The head every declaration starts with: the sources given, then those found in the
  directories given.
\<close>

definition sourcesFiles_of :: "project \<Rightarrow> args \<Rightarrow> bool \<Rightarrow> string list" where
  "sourcesFiles_of st a rec =
     sources_arg a @
     (if dirs_arg a \<noteq> [] then scanFiles st (dirs_arg a) (accept_arg a) (reject_arg a) rec
      else [])"

text \<open>
  \<^verbatim>\<open>localEnv.AppendUnique(CPPPATH = ...)\<close> and the three optional dictionaries of flags.
\<close>

definition apply_arguments :: "project \<Rightarrow> addr \<Rightarrow> args \<Rightarrow> project" where
  "apply_arguments st e a =
     (let d1 = AppendUnique ''CPPPATH'' (includes_arg a) (envs st e);
          d2 = (if localEnvFlags_arg a \<noteq> [] then AppendUnique_flags (localEnvFlags_arg a) d1 else d1);
          d3 = (if replaceLocalEnvFlags_arg a \<noteq> [] then Replace_flags (replaceLocalEnvFlags_arg a) d2
                else d2);
          d4 = (if globalEnvFlags_arg a \<noteq> [] then AppendUnique_flags (globalEnvFlags_arg a) d3 else d3)
      in st\<lparr>envs := (envs st)(e := d4)\<rparr>)"

definition build :: "project \<Rightarrow> string \<Rightarrow> string list \<Rightarrow> string list \<Rightarrow> project" where
  "build st builder targets srcs = st\<lparr>artifacts := artifacts st @ [(builder, targets, srcs)]\<rparr>"

text \<open>
  The block of \<^verbatim>\<open>SharedLibrary\<close>, \<^verbatim>\<open>Program\<close> and \<^verbatim>\<open>UnitTest\<close> that makes the local
  environment and the list \<^verbatim>\<open>localLibraries\<close>. With an environment given,
  \<^verbatim>\<open>localLibraries\<close> is extended by what the environment holds under
  \<^verbatim>\<open>'SconsProjectLibraries'\<close>; when \<^verbatim>\<open>appendLibsToEnv\<close> stored the list itself there, the
  two are one object and the entry grows with it.
\<close>

definition make_localEnv ::
  "nat \<Rightarrow> project \<Rightarrow> addr option \<Rightarrow> addr list \<Rightarrow> string
     \<Rightarrow> (error + addr \<times> addr list) \<times> project" where
  "make_localEnv limit st ev l_libraries nm =
     (case ev of
        Some e0 \<Rightarrow>
          (let (localEnv, st1) = Clone st e0;
               had = (envs st1 localEnv ''SconsProjectLibraries'' \<noteq> None)
           in case appendLibsToEnv limit st1 localEnv l_libraries [] of
                (Inl err, s) \<Rightarrow> (Inl err, s)
              | (Inr x, s) \<Rightarrow>
                  (if envs s localEnv ''SconsProjectLibraries'' \<noteq> None
                   then (let localLibraries =
                               l_libraries @ libs_of (envs s localEnv ''SconsProjectLibraries'')
                         in (Inr (localEnv, localLibraries),
                             if \<not> had
                             then setitem s localEnv ''SconsProjectLibraries'' (Libs localLibraries)
                             else s))
                   else (Inr (localEnv, l_libraries), s)))
      | None \<Rightarrow>
          (case createEnv limit st l_libraries nm of
             (Inl err, s) \<Rightarrow> (Inl err, s)
           | (Inr localEnv, s) \<Rightarrow> (Inr (localEnv, l_libraries), s)))"

text \<open>
  The end of \<^verbatim>\<open>StaticLibrary\<close> and \<^verbatim>\<open>SharedLibrary\<close> (\<open>fn\<close> tells which): the new target is
  exposed as an internal library and entered in the registry \<^verbatim>\<open>allTargets\<close>.
  \<^verbatim>\<open>appendDict\<close> writes into the dictionary \<^verbatim>\<open>externEnvFlags\<close> itself; when the argument was
  not passed this is the default object of the function, which the checkers of the
  earlier such calls still refer to and the later calls start from.
\<close>

definition expose_library ::
  "project \<Rightarrow> string \<Rightarrow> string \<Rightarrow> args \<Rightarrow> addr list \<Rightarrow> string \<Rightarrow> project" where
  "expose_library st fn target a deps node =
     (let envFlags = appendDict (case externEnvFlags_arg a of
                                   None \<Rightarrow> externEnvFlags_default st fn
                                 | Some f \<Rightarrow> f)
                                (globalEnvFlags_arg a);
          st0 = (case externEnvFlags_arg a of
                   Some f \<Rightarrow> st
                 | None \<Rightarrow>
                     st\<lparr>heap := fold (\<lambda>(h, incs) hp.
                                       hp(h := (hp h)\<lparr>configure :=
                                                       InternalLibChecker_configure incs envFlags\<rparr>))
                                    (externEnvFlags_holders st fn) (heap st),
                        externEnvFlags_default := (externEnvFlags_default st)(fn := envFlags)\<rparr>);
          dstLibChecker = next_lib st0;
          st1 = st0\<lparr>heap := (heap st0)(dstLibChecker :=
                          InternalLibChecker (BaseLibChecker st0) target [] (includes_arg a)
                            envFlags (deps @ dependencies_arg a) (Some node) []),
                    next_lib := Suc (next_lib st0),
                    externEnvFlags_holders :=
                      (case externEnvFlags_arg a of
                         Some f \<Rightarrow> externEnvFlags_holders st0
                       | None \<Rightarrow> (externEnvFlags_holders st0)
                                   (fn := externEnvFlags_holders st0 fn
                                          @ [(dstLibChecker, includes_arg a)]))\<rparr>;
          key = (case publicName_arg a of
                   None \<Rightarrow> target
                 | Some p \<Rightarrow> if p \<noteq> [] then p else target);
          st2 = (if public_arg a then st1\<lparr>libs_namespace := (libs_namespace st1)(key \<mapsto> dstLibChecker)\<rparr>
                 else st1)
      in st2\<lparr>allTargets := AList.update key (Some node, Some dstLibChecker) (allTargets st2)\<rparr>)"

definition no_sources :: "string \<Rightarrow> error" where
  "no_sources t = RuntimeError (''No source files for the target: '' @ t)"

definition StaticLibrary ::
  "nat \<Rightarrow> project \<Rightarrow> string \<Rightarrow> args \<Rightarrow> (error + string) \<times> project" where
  "StaticLibrary limit st target a =
     (let sourcesFiles = sourcesFiles_of st a True
      in if sourcesFiles = [] then (Inl (no_sources target), st)
         else
           case (case env_arg a of
                   Some e0 \<Rightarrow>
                     (let (localEnv, st1) = Clone st e0
                      in case appendLibsToEnv limit st1 localEnv (libraries_arg a) [] of
                           (Inl err, s) \<Rightarrow> (Inl err, s)
                         | (Inr x, s) \<Rightarrow> (Inr localEnv, s))
                 | None \<Rightarrow> createEnv limit st (libraries_arg a) target) of
             (Inl err, st2) \<Rightarrow> (Inl err, st2)
           | (Inr localEnv, st2) \<Rightarrow>
               (let st3 = apply_arguments st2 localEnv a;
                    sourcesFiles' = sourcesFiles @ strs_of (envs st3 localEnv ''ADDSRC'');
                    st4 = build st3 ''StaticLibrary'' [target] sourcesFiles';
                    st5 = call_Alias st4 target [target];
                    st6 = declareTarget st5 localEnv target None;
                    st7 = expose_library st6 ''StaticLibrary'' target a (libraries_arg a) target
                in (Inr target, st7)))"

definition SharedLibrary ::
  "nat \<Rightarrow> project \<Rightarrow> string \<Rightarrow> args \<Rightarrow> (error + string) \<times> project" where
  "SharedLibrary limit st target a =
     (let sourcesFiles = sourcesFiles_of st a True
      in if sourcesFiles = [] then (Inl (no_sources target), st)
         else
           case make_localEnv limit st (env_arg a) (libraries_arg a) target of
             (Inl err, st2) \<Rightarrow> (Inl err, st2)
           | (Inr (localEnv, localLibraries), st2) \<Rightarrow>
               (let st3 = apply_arguments st2 localEnv a;
                    sourcesFiles' = sourcesFiles @ strs_of (envs st3 localEnv ''ADDSRC'');
                    st4 = setitem st3 localEnv ''PDB'' (Str (target @ ''.pdb''));
                    st5 = build st4 ''SharedLibrary'' [target] sourcesFiles';
                    st6 = call_Alias st5 target [target];
                    st7 = declareTarget st6 localEnv target None;
                    st8 = expose_library st7 ''SharedLibrary'' target a localLibraries target;
                    st9 = (case publicName_arg a of
                             None \<Rightarrow> st8
                           | Some p \<Rightarrow> if p \<noteq> [] then call_Alias st8 p [target] else st8)
                in (Inr target, st9)))"

definition Program ::
  "nat \<Rightarrow> project \<Rightarrow> string \<Rightarrow> args \<Rightarrow> (error + string) \<times> project" where
  "Program limit st target a =
     (let sourcesFiles = sourcesFiles_of st a True
      in if sourcesFiles = [] then (Inl (no_sources target), st)
         else
           case make_localEnv limit st (env_arg a) (libraries_arg a) target of
             (Inl err, st2) \<Rightarrow> (Inl err, st2)
           | (Inr (localEnv, localLibraries), st2) \<Rightarrow>
               (let st3 = apply_arguments st2 localEnv a;
                    st4 = build st3 ''Program'' [target] sourcesFiles;
                    st5 = call_Alias st4 target [target];
                    st6 = declareTarget st5 localEnv target None;
                    st7 = st6\<lparr>allTargets := AList.update target (Some target, None) (allTargets st6)\<rparr>
                in (Inr target, st7)))"

text \<open>
  \<^verbatim>\<open>repr\<close> of a string and \<^verbatim>\<open>str\<close> of a list of strings, which is made of the \<^verbatim>\<open>repr\<close> of its
  elements. The string is quoted with apostrophes, or with double quotes when it holds
  an apostrophe and no double quote; the backslash, the quote and the code points that
  are not printable are escaped.
\<close>

definition printable :: "char \<Rightarrow> bool" where
  "printable c =
     ((32 \<le> (of_char c :: nat) \<and> (of_char c :: nat) < 127) \<or>
      (161 \<le> (of_char c :: nat) \<and> (of_char c :: nat) \<noteq> 173))"

definition hex_digit :: "nat \<Rightarrow> char" where
  "hex_digit n = ''0123456789abcdef'' ! (n mod 16)"

definition escape :: "char \<Rightarrow> char \<Rightarrow> string" where
  "escape q c =
     (if c = CHR 0x5C then [CHR 0x5C, CHR 0x5C]
      else if c = q then [CHR 0x5C, q]
      else if c = CHR 0x09 then [CHR 0x5C, CHR ''t'']
      else if c = CHR 0x0A then [CHR 0x5C, CHR ''n'']
      else if c = CHR 0x0D then [CHR 0x5C, CHR ''r'']
      else if \<not> printable c
        then [CHR 0x5C, CHR ''x'', hex_digit ((of_char c :: nat) div 16), hex_digit (of_char c)]
      else [c])"

definition repr :: "string \<Rightarrow> string" where
  "repr s =
     (let q = (if CHR 0x27 \<in> set s \<and> CHR 0x22 \<notin> set s then CHR 0x22 else CHR 0x27)
      in [q] @ concat (map (escape q) s) @ [q])"

definition str_list :: "string list \<Rightarrow> string" where
  "str_list xs = ''['' @ join '', '' (map repr xs) @ '']''"

text \<open>
  \<^verbatim>\<open>UnitTest\<close>. Its target is a string, or \<^verbatim>\<open>None\<close> for the names of the current
  directories; \<^verbatim>\<open>'-'.join\<close> of a string joins its characters.
\<close>

definition UnitTest ::
  "nat \<Rightarrow> project \<Rightarrow> string option \<Rightarrow> args \<Rightarrow> (error + string list) \<times> project" where
  "UnitTest limit st target a =
     (let l_sources = sourcesFiles_of st a True
      in if l_sources = []
         then (Inl (no_sources (case target of None \<Rightarrow> str_list (getDirs0 st) | Some t \<Rightarrow> t)), st)
         else
           case make_localEnv limit st (env_arg a) (libraries_arg a)
                  (case target of
                     None \<Rightarrow> join ''-'' (getDirs0 st)
                   | Some t \<Rightarrow> join ''-'' (map (\<lambda>c. [c]) t)) of
             (Inl err, st2) \<Rightarrow> (Inl err, st2)
           | (Inr (localEnv, localLibraries), st2) \<Rightarrow>
               (let (localExecEnv, st3) = Clone st2 localEnv
                in case appendLibsToEnv limit st3 localExecEnv (execLibraries_arg a) [] of
                     (Inl err, st4) \<Rightarrow> (Inl err, st4)
                   | (Inr x, st4) \<Rightarrow>
                       (let st5 = apply_arguments st4 localEnv a;
                            l_target = (case target of None \<Rightarrow> getDirs0 st | Some t \<Rightarrow> [t]);
                            st6 = build st5 ''UnitTest'' l_target l_sources
                        in (Inr l_target, st6))))"

text \<open>
  \<^verbatim>\<open>ScriptTests\<close> uses three names that Python 3 does not have: the builtin \<^verbatim>\<open>file\<close>, the
  method \<^verbatim>\<open>sort\<close> of what \<^verbatim>\<open>keys()\<close> returns and the method \<^verbatim>\<open>iteritems\<close> of a dictionary.
  Evaluating each of them raises, and what follows it in its block is not reached.
\<close>

definition file' :: "string \<Rightarrow> error + string" where
  "file' scriptFilename = Inl (NameError ''file'')"

definition keys_sort :: "string list \<Rightarrow> error + string list" where
  "keys_sort allDeps = Inl (AttributeError ''sort'')"

definition iteritems ::
  "(string \<times> string list) list \<Rightarrow> error + (string \<times> string list) list" where
  "iteritems procEnvFlags = Inl (AttributeError ''iteritems'')"

text \<open>
  The dependencies a script declares in its leading comment: \<open>Inl\<close> is the exception
  raised, \<open>Inr None\<close> the \<^verbatim>\<open>continue\<close> of the production mode, and otherwise the nodes and
  the checkers of the targets named. Paths are taken as given.
\<close>

definition sconsDepPattern :: string where
  "sconsDepPattern = ''# scons:''"

definition script_dependencies ::
  "project \<Rightarrow> bool \<Rightarrow> string \<Rightarrow> error + (string list \<times> addr list) option" where
  "script_dependencies st checkDependencies s =
     (if checkDependencies
      then
        (let scriptFilename = s
         in case file' scriptFilename of
              Inl exn \<Rightarrow> Inl exn
            | Inr firstline \<Rightarrow>
                if take (length sconsDepPattern) firstline = sconsDepPattern
                then
                  (let dependenciesStr = split' (drop (length sconsDepPattern) firstline)
                   in if dependenciesStr = [''all'']
                      then Inr (Some (List.map_filter fst (map snd (allTargets st)),
                                      List.map_filter snd (map snd (allTargets st))))
                      else
                        (let err = filter (\<lambda>d. d \<notin> set (map fst (allTargets st))) dependenciesStr
                         in if err \<noteq> []
                            then (if str_of (envs st (env st) ''mode'') = ''production''
                                  then Inr None
                                  else (case keys_sort (map fst (allTargets st)) of
                                          Inl exn \<Rightarrow> Inl exn
                                        | Inr allDeps \<Rightarrow> Inl (ValueError scriptFilename err allDeps)))
                            else
                              (let targets = map (\<lambda>d. the (map_of (allTargets st) d)) dependenciesStr
                               in Inr (Some (List.map_filter fst targets,
                                             List.map_filter snd targets)))))
                else Inr (Some ([], [])))
      else Inr (Some ([], [])))"

text \<open>
  The loop over the scripts, with the list \<^verbatim>\<open>allDst\<close> and the variable \<^verbatim>\<open>dst\<close>, which is
  bound only under \<^verbatim>\<open>if procEnvFlags:\<close>, after the loop over \<^verbatim>\<open>procEnvFlags.iteritems()\<close>.
\<close>

fun ScriptTests_loop ::
  "nat \<Rightarrow> args \<Rightarrow> string list \<Rightarrow> string list \<Rightarrow> string list \<Rightarrow> string option \<Rightarrow> project
     \<Rightarrow> (error + string list) \<times> project" where
  "ScriptTests_loop limit a l_target [] allDst dst st = (Inr allDst, st)"
| "ScriptTests_loop limit a l_target (s # rest) allDst dst st =
     (case script_dependencies st (checkDependencies_arg a) s of
        Inl exn \<Rightarrow> (Inl exn, st)
      | Inr None \<Rightarrow> ScriptTests_loop limit a l_target rest allDst dst st
      | Inr (Some (depsFromFile, libsFromFile)) \<Rightarrow>
          (case (case env_arg a of
                   Some e0 \<Rightarrow>
                     (let (localEnv, st1) = Clone st e0;
                          localLibraries =
                            (libraries_arg a @ libsFromFile) @
                            libs_of (envs st1 localEnv ''SconsProjectLibraries'')
                      in case appendLibsToEnv limit st1 localEnv localLibraries [] of
                           (Inl exn, s') \<Rightarrow> (Inl exn, s')
                         | (Inr x, s') \<Rightarrow> (Inr localEnv, s'))
                 | None \<Rightarrow>
                     createEnv limit st (libraries_arg a @ libsFromFile)
                       (join ''-'' (''scripttest'' # l_target))) of
             (Inl exn, st2) \<Rightarrow> (Inl exn, st2)
           | (Inr localEnv, st2) \<Rightarrow>
               (let st3 = (if envFlags_arg a \<noteq> []
                           then st2\<lparr>envs := (envs st2)
                                  (localEnv := AppendUnique_flags (envFlags_arg a) (envs st2 localEnv))\<rparr>
                           else st2)
                in case (if procEnvFlags_arg a \<noteq> []
                         then (case iteritems (procEnvFlags_arg a) of
                                 Inl exn \<Rightarrow> Inl exn
                               | Inr items \<Rightarrow>
                                   Inr (allDst @ [s], Some s,
                                        build (fold (\<lambda>(k, v) t.
                                                       call_PrependENVPath t localEnv k (Some (Strs v)))
                                                 items st3)
                                          ''ScriptTest'' l_target [s]))
                         else Inr (allDst, dst, st3)) of
                     Inl exn \<Rightarrow> (Inl exn, st3)
                   | Inr (allDst', dst', st4) \<Rightarrow>
                       if (depsFromFile \<noteq> [] \<or> build_dependencies_arg a \<noteq> []
                           \<or> libraries_arg a \<noteq> []) \<and> dst' = None
                       then (Inl (UnboundLocalError ''dst''), st4)
                       else ScriptTests_loop limit a l_target rest allDst' dst' st4)))"

definition ScriptTests ::
  "nat \<Rightarrow> project \<Rightarrow> string list option \<Rightarrow> args \<Rightarrow> (error + string list) \<times> project" where
  "ScriptTests limit st target a =
     (let l_target = (case target of None \<Rightarrow> getDirs0 st | Some t \<Rightarrow> t);
          l_sources = sourcesFiles_of st a (recursive_arg a)
      in if l_sources = [] then (Inl (no_sources (str_list l_target)), st)
         else ScriptTests_loop limit a l_target l_sources [] None st)"

section \<open>Auxiliary notions for the properties\<close>

text \<open>
  \<open>firsts f S xs\<close> keeps the elements of \<open>xs\<close> whose key \<open>f x\<close> is neither in \<open>S\<close> nor the
  key of an earlier element.
\<close>

fun firsts :: "('a \<Rightarrow> 'k) \<Rightarrow> 'k set \<Rightarrow> 'a list \<Rightarrow> 'a list" where
  "firsts f S [] = []"
| "firsts f S (x # xs) =
     (if f x \<in> S then firsts f S xs else x # firsts f (insert (f x) S) xs)"

subsection \<open>A small project\<close>

text \<open>
  An external checker whose methods leave the environment as it is; \<open>cfg\<close> and \<open>chk\<close> are
  what its \<^verbatim>\<open>configure\<close> and \<^verbatim>\<open>check\<close> answer.
\<close>

definition mk_lib ::
  "string \<Rightarrow> nat \<Rightarrow> addr option list \<Rightarrow> string option \<Rightarrow> bool \<Rightarrow> bool \<Rightarrow> lib" where
  "mk_lib nm i deps node cfg chk =
     \<lparr>name = nm, id' = i, dependencies = deps, sconsNode = node, checkDone = False,
      error = [], enabled = (\<lambda>d. True), initOptions = (\<lambda>os. (True, os)),
      initEnv = (\<lambda>d. d), configure = (\<lambda>d. (cfg, d)), check = (\<lambda>d. (chk, d)),
      postconfigure = (\<lambda>d level. d)\<rparr>"

text \<open>
  The libraries of the example of the specification: \<open>A\<close> at address 0 (its check
  fails), \<open>B\<close> at 1 depending on \<open>A\<close>, \<open>C\<close> at 2 depending on \<open>B\<close>; an internal library at
  3; a second checker named \<open>A\<close> with another id at 4; the common library at 5; a
  checker whose handle is set but empty at 6.
\<close>

definition demo_heap :: "addr \<Rightarrow> lib" where
  "demo_heap a =
     (if a = 0 then mk_lib ''A'' 0 [] None True False
      else if a = 1 then mk_lib ''B'' 0 [Some 0] None True True
      else if a = 2 then mk_lib ''C'' 0 [Some 1] None True True
      else if a = 3 then mk_lib ''core'' 0 [] (Some ''libcore.a'') True True
      else if a = 4 then mk_lib ''A'' 1 [] None True True
      else if a = 5 then mk_lib ''sconsProject'' 0 [] None True True
      else if a = 6 then mk_lib ''plugin'' 0 [] (Some []) True True
      else mk_lib [] 0 [] None True True)"

definition demo_base :: env where
  "demo_base =
     [''check_libs'' \<mapsto> Bool True, ''colors'' \<mapsto> Bool True, ''mode'' \<mapsto> Str ''debug'',
      ''ignore_configure_errors'' \<mapsto> Bool True]"

definition demo_project :: project where
  "demo_project =
     \<lparr>env = 0, envs = (\<lambda>a. if a = 0 then demo_base else Map.empty), next_env = 1,
      heap = demo_heap, next_lib = 7, opts = [], commonLibs = [5], libs_error = [],
      allLibsChecked = [], removedFromDefaultTargets = Map.empty, allTargets = [],
      Alias = (\<lambda>a. []), stdout = [], trace = [], opt_clean = False, opt_help = False,
      Update = (\<lambda>os d. d), PrependENVPath = (\<lambda>k v d. d),
      libs_namespace = Map.empty,
      artifacts = [], Default = [], scanFiles = (\<lambda>ds acc rej r. []),
      getDirs0 = [''tests''], BaseLibChecker = mk_lib [] 0 [] None True True,
      externEnvFlags_default = (\<lambda>fn. []), externEnvFlags_holders = (\<lambda>fn. [])\<rparr>"

subsection \<open>Leaf-first order\<close>

text \<open>The identity of a library: its \<^verbatim>\<open>(name, id)\<close> pair, as \<^verbatim>\<open>uniqLibs\<close> compares it.\<close>

definition lib_key :: "(addr \<Rightarrow> lib) \<Rightarrow> addr \<Rightarrow> string \<times> nat" where
  "lib_key h a = (name (h a), id' (h a))"

text \<open>
  \<open>leaf_first_from h S ps\<close>: every dependency of every entry of \<open>ps\<close> has its identity in
  \<open>S\<close> or at an earlier entry of \<open>ps\<close>.
\<close>

fun leaf_first_from :: "(addr \<Rightarrow> lib) \<Rightarrow> (string \<times> nat) set \<Rightarrow> (addr \<times> nat) list \<Rightarrow> bool" where
  "leaf_first_from h S [] = True"
| "leaf_first_from h S (p # ps) =
     ((\<forall>d. Some d \<in> set (dependencies (h (fst p))) \<longrightarrow> lib_key h d \<in> S) \<and>
      leaf_first_from h (insert (lib_key h (fst p)) S) ps)"

text \<open>The dependency graph of the checkers: \<open>(b, a)\<close> when \<open>a\<close> lists \<open>b\<close> as a dependency.\<close>

definition depends_on :: "(addr \<Rightarrow> lib) \<Rightarrow> (addr \<times> addr) set" where
  "depends_on h = {(b, a). Some b \<in> set (dependencies (h a))}"

subsection \<open>What an operation may change\<close>

text \<open>
  \<open>env_frame W st st'\<close>: from \<open>st\<close> to \<open>st'\<close> the project keeps its base environment, the
  environments that existed in \<open>st\<close> keep their dictionaries except those at the
  addresses in \<open>W\<close>, the library checkers change in their \<^verbatim>\<open>checkDone\<close> flag at most, and
  the collaborators and command-line switches are the same.
\<close>

definition env_frame :: "addr set \<Rightarrow> project \<Rightarrow> project \<Rightarrow> bool" where
  "env_frame W st st' =
     (env st' = env st \<and> next_env st \<le> next_env st' \<and>
      (\<forall>a. a < next_env st \<and> a \<notin> W \<longrightarrow> envs st' a = envs st a) \<and>
      (\<forall>l. (heap st' l)\<lparr>checkDone := False\<rparr> = (heap st l)\<lparr>checkDone := False\<rparr>) \<and>
      Update st' = Update st \<and> PrependENVPath st' = PrependENVPath st \<and>
      opt_clean st' = opt_clean st \<and> opt_help st' = opt_help st \<and>
      commonLibs st' = commonLibs st)"

text \<open>
  The small project after a target environment (at address 1) was built with the
  failing library \<open>A\<close>; the flag \<^verbatim>\<open>ignore_configure_errors\<close> is set.
\<close>

definition demo_degraded :: project where
  "demo_degraded =
     demo_project\<lparr>envs := (envs demo_project)
                      (1 := [''SconsProject_missingDependencies'' \<mapsto> Strs [''A'']]),
                   next_env := 2, libs_error := [0]\<rparr>"

text \<open>Arguments of a declaration without sources, and the project in production mode.\<close>

definition demo_args :: args where
  "demo_args =
     \<lparr>sources_arg = [], dirs_arg = [], libraries_arg = [], execLibraries_arg = [],
      env_arg = None, includes_arg = [], localEnvFlags_arg = [], replaceLocalEnvFlags_arg = [],
      externEnvFlags_arg = None, globalEnvFlags_arg = [], envFlags_arg = [], procEnvFlags_arg = [],
      dependencies_arg = [], build_dependencies_arg = [], accept_arg = [''*.cpp''],
      reject_arg = [''@''], recursive_arg = True, checkDependencies_arg = True,
      public_arg = True, publicName_arg = None\<rparr>"

definition demo_production :: project where
  "demo_production =
     demo_project\<lparr>envs := (envs demo_project)(0 := demo_base(''mode'' \<mapsto> Str ''production''))\<rparr>"

subsection \<open>Probes of a run\<close>

text \<open>
  The libraries probed, in order, read from the trace: one \<open>Probe\<close> event is written each
  time \<^verbatim>\<open>checkLibrary\<close> goes past its memo tests and starts to configure and check.
\<close>

fun probes_of :: "event list \<Rightarrow> addr list" where
  "probes_of [] = []"
| "probes_of (Probe l # es) = l # probes_of es"
| "probes_of (ev # es) = probes_of es"



definition memo_same :: "project \<Rightarrow> project \<Rightarrow> bool" where
  "memo_same st st' =
     (probes_of (trace st') = probes_of (trace st) \<and>
      allLibsChecked st' = allLibsChecked st \<and>
      (\<forall>l. checkDone (heap st' l) = checkDone (heap st l)))"

section \<open>Properties\<close>

subsection \<open>Deduplication\<close>

lemma uniqLibs_loop_firsts:
  "uniqLibs_loop h xs libs names =
     libs @ firsts (\<lambda>p. (name (h (fst p)), id' (h (fst p)))) (set names) xs"
  by (induction xs arbitrary: libs names) auto

lemma uniqLibs_firsts:
  "uniqLibs h xs = firsts (\<lambda>p. (name (h (fst p)), id' (h (fst p)))) {} xs"
  by (simp add: uniqLibs_def uniqLibs_loop_firsts)

lemma firsts_keys_disjoint: "f ` set (firsts f S xs) \<inter> S = {}"
  by (induction xs arbitrary: S) auto

lemma firsts_subset: "set (firsts f S xs) \<subseteq> set xs"
  by (induction xs arbitrary: S) auto

lemma firsts_keys: "f ` set (firsts f S xs) = f ` set xs - S"
  by (induction xs arbitrary: S) auto

lemma firsts_distinct: "distinct (map f (firsts f S xs))"
proof (induction xs arbitrary: S)
  case Nil
  then show ?case by simp
next
  case (Cons x xs)
  have "f x \<notin> f ` set (firsts f (insert (f x) S) xs)"
    using firsts_keys_disjoint [of f "insert (f x) S" xs] by blast
  with Cons show ?case by simp
qed

lemma firsts_id: "distinct (map f ys) \<Longrightarrow> f ` set ys \<inter> S = {} \<Longrightarrow> firsts f S ys = ys"
  by (induction ys arbitrary: S) auto

lemma firsts_idem: "firsts f S (firsts f S xs) = firsts f S xs"
  by (rule firsts_id [OF firsts_distinct firsts_keys_disjoint])

lemma firsts_index:
  "firsts f S xs =
     map (\<lambda>i. xs ! i)
       (filter (\<lambda>i. f (xs ! i) \<notin> S \<and> (\<forall>j<i. f (xs ! j) \<noteq> f (xs ! i))) [0..<length xs])"
proof (induction xs arbitrary: S)
  case Nil
  then show ?case by simp
next
  case (Cons x xs)
  have up: "[0..<Suc (length xs)] = 0 # map Suc [0..<length xs]"
    by (simp add: upt_conv_Cons map_Suc_upt del: upt_Suc)
  have shift: "\<And>T. map (\<lambda>i. (x # xs) ! i)
           (filter (\<lambda>i. f ((x # xs) ! i) \<notin> T \<and> (\<forall>j<i. f ((x # xs) ! j) \<noteq> f ((x # xs) ! i)))
              (map Suc [0..<length xs]))
        = map (\<lambda>i. xs ! i)
           (filter (\<lambda>i. f (xs ! i) \<notin> insert (f x) T \<and> (\<forall>j<i. f (xs ! j) \<noteq> f (xs ! i)))
              [0..<length xs])"
    by (auto simp: filter_map o_def All_less_Suc2 intro!: filter_cong arg_cong [where f = "map _"])
  show ?case
  proof (cases "f x \<in> S")
    case True
    then have "insert (f x) S = S" by blast
    with True Cons [of S] shift [of S] show ?thesis
      by (simp add: up del: upt_Suc)
  next
    case False
    with Cons [of "insert (f x) S"] shift [of S] show ?thesis
      by (simp add: up del: upt_Suc)
  qed
qed

text \<open>
  Claim C5. \<^verbatim>\<open>uniqLibs\<close> is idempotent, and its result is the input restricted to the
  positions \<open>i\<close> that are the first occurrence of their \<^verbatim>\<open>(name, id)\<close> pair (no earlier
  position \<open>j\<close> carries the same pair), in the order of the input. Each kept entry is
  the input's entry, with the level it has there; the later duplicates and their levels
  are dropped.
\<close>

theorem uniqLibs_idempotent_first_occurrences:
  "uniqLibs h (uniqLibs h x) = uniqLibs h x \<and>
   uniqLibs h x =
     map (\<lambda>i. x ! i)
       (filter (\<lambda>i. \<forall>j<i. (name (h (fst (x ! j))), id' (h (fst (x ! j))))
                            \<noteq> (name (h (fst (x ! i))), id' (h (fst (x ! i)))))
          [0..<length x])"
proof
  show "uniqLibs h (uniqLibs h x) = uniqLibs h x"
    by (simp only: uniqLibs_firsts firsts_idem)
  show "uniqLibs h x =
     map (\<lambda>i. x ! i)
       (filter (\<lambda>i. \<forall>j<i. (name (h (fst (x ! j))), id' (h (fst (x ! j))))
                            \<noteq> (name (h (fst (x ! i))), id' (h (fst (x ! i)))))
          [0..<length x])"
    by (subst uniqLibs_firsts, subst firsts_index [where S = "{}"]) simp
qed

theorem uniqLibs_idempotent_first_occurrences_witness:
  "uniqLibs demo_heap [(0, 1), (1, 0), (0, 0), (4, 2)] = [(0, 1), (1, 0), (4, 2)] \<and>
   uniqLibs demo_heap (uniqLibs demo_heap [(0, 1), (1, 0), (0, 0), (4, 2)])
     = [(0, 1), (1, 0), (4, 2)]"
proof -
  have e: "uniqLibs demo_heap [(0, 1), (1, 0), (0, 0), (4, 2)] = [(0, 1), (1, 0), (4, 2)]"
    by (simp add: uniqLibs_def demo_heap_def mk_lib_def)
  from uniqLibs_idempotent_first_occurrences [of demo_heap "[(0, 1), (1, 0), (0, 0), (4, 2)]"]
  have "uniqLibs demo_heap (uniqLibs demo_heap [(0, 1), (1, 0), (0, 0), (4, 2)])
          = uniqLibs demo_heap [(0, 1), (1, 0), (0, 0), (4, 2)]"
    by (rule conjunct1)
  with e show ?thesis by simp
qed

subsection \<open>Checking a library\<close>

text \<open>
  Claim C6, as the code has it. \<^verbatim>\<open>checkLibrary\<close> tests the truth value of the handle
  (\<^verbatim>\<open>if lib.sconsNode:\<close>): for a library whose \<^verbatim>\<open>sconsNode\<close> is set and not empty it
  returns \<^verbatim>\<open>True\<close> and leaves the whole state as it was, so no temporary environment is
  cloned, no configure context is created, no \<^verbatim>\<open>configure\<close> or \<^verbatim>\<open>check\<close> is called and the
  trace gets no \<open>Probe\<close> event. A handle that is set but empty counts as no handle.
\<close>

theorem checkLibrary_internal_no_probe:
  "truthy_node (sconsNode (heap st l)) \<Longrightarrow> checkLibrary limit st l = (Inr True, st)"
  by (simp add: checkLibrary_def)

theorem checkLibrary_internal_no_probe_witness:
  "truthy_node (sconsNode (heap demo_project 3)) \<and>
   checkLibrary 10 demo_project 3 = (Inr True, demo_project)"
proof -
  have h: "truthy_node (sconsNode (heap demo_project 3))"
    by (simp add: demo_project_def demo_heap_def mk_lib_def)
  from checkLibrary_internal_no_probe [OF h, of 10] h show ?thesis by simp
qed

subsection \<open>Building an environment\<close>

text \<open>
  Claim C10. \<^verbatim>\<open>appendLibsToEnv\<close> called with an empty list of libraries returns the
  environment it was given (the same object) and leaves the whole state as it was:
  no key of any environment is added or changed, no library is checked, and
  \<^verbatim>\<open>libs_error\<close> is the same list.
\<close>

theorem appendLibsToEnv_empty:
  "appendLibsToEnv limit st e [] nm = (Inr e, st)"
  by (simp add: appendLibsToEnv_def)

theorem appendLibsToEnv_empty_witness:
  "appendLibsToEnv 10 demo_project 0 [] ''prog'' = (Inr 0, demo_project)"
  by (rule appendLibsToEnv_empty)

subsection \<open>Dependency resolution\<close>

lemma extend_all_Some:
  "(\<forall>r \<in> set rs. r \<noteq> None) \<Longrightarrow> extend_all rs = Some (concat (map the rs))"
  by (induction rs rule: extend_all.induct) auto

lemma extend_all_SomeD:
  "extend_all rs = Some ll \<Longrightarrow> (\<forall>r \<in> set rs. r \<noteq> None) \<and> ll = concat (map the rs)"
  by (induction rs arbitrary: ll rule: extend_all.induct) (auto split: option.splits)

lemma intern_mono_Suc:
  "internFindLibDependencies n h l level = Some r
     \<Longrightarrow> internFindLibDependencies (Suc n) h l level = Some r"
proof (induction n arbitrary: l level r)
  case 0
  then show ?case by simp
next
  case (Suc n)
  show ?case
  proof (cases l)
    case None
    with Suc.prems show ?thesis by simp
  next
    case (Some a)
    from Suc.prems Some obtain ll where
      ll: "extend_all (map (\<lambda>l. internFindLibDependencies n h l (level + 1)) (dependencies (h a))) = Some ll"
      and r: "r = ll @ [(a, level)]"
      by (auto split: option.splits)
    from extend_all_SomeD [OF ll]
    have all: "\<forall>d \<in> set (dependencies (h a)). internFindLibDependencies n h d (level + 1) \<noteq> None"
      and cc: "ll = concat (map the (map (\<lambda>l. internFindLibDependencies n h l (level + 1)) (dependencies (h a))))"
      by auto
    have eq: "map (\<lambda>l. internFindLibDependencies (Suc n) h l (level + 1)) (dependencies (h a))
            = map (\<lambda>l. internFindLibDependencies n h l (level + 1)) (dependencies (h a))"
    proof (rule map_cong [OF refl])
      fix d assume "d \<in> set (dependencies (h a))"
      with all obtain rd where "internFindLibDependencies n h d (level + 1) = Some rd" by auto
      with Suc.IH [OF this] show "internFindLibDependencies (Suc n) h d (level + 1) = internFindLibDependencies n h d (level + 1)"
        by simp
    qed
    show ?thesis
      unfolding Some internFindLibDependencies.simps(3) [of "Suc n"] eq ll r by simp
  qed
qed

lemma intern_mono:
  "internFindLibDependencies n h l level = Some r \<Longrightarrow> n \<le> m
     \<Longrightarrow> internFindLibDependencies m h l level = Some r"
  by (induction m) (auto simp: le_Suc_eq intern_mono_Suc)

lemma intern_level_defined:
  "internFindLibDependencies n h l level \<noteq> None
     \<Longrightarrow> internFindLibDependencies n h l level' \<noteq> None"
proof (induction n arbitrary: l level level')
  case 0
  then show ?case by simp
next
  case (Suc n)
  show ?case
  proof (cases l)
    case None
    then show ?thesis by simp
  next
    case (Some a)
    from Suc.prems Some obtain ll where
      ll: "extend_all (map (\<lambda>l. internFindLibDependencies n h l (level + 1)) (dependencies (h a))) = Some ll"
      by (auto split: option.splits)
    from extend_all_SomeD [OF ll]
    have "\<forall>d \<in> set (dependencies (h a)). internFindLibDependencies n h d (level + 1) \<noteq> None"
      by auto
    with Suc.IH have "\<forall>d \<in> set (dependencies (h a)). internFindLibDependencies n h d (level' + 1) \<noteq> None"
      by blast
    then have "\<forall>r \<in> set (map (\<lambda>l. internFindLibDependencies n h l (level' + 1)) (dependencies (h a))). r \<noteq> None"
      by auto
    from extend_all_Some [OF this] Some show ?thesis by simp
  qed
qed

lemma intern_terminates:
  assumes "wf (depends_on h)"
  shows "\<exists>N. \<forall>n\<ge>N. \<forall>level. internFindLibDependencies n h (Some a) level \<noteq> None"
  using assms
proof (induction a rule: wf_induct_rule)
  case (less a)
  have "\<exists>N. \<forall>d \<in> set ds. \<forall>n\<ge>N. \<forall>level. internFindLibDependencies n h d level \<noteq> None"
    if "set ds \<subseteq> set (dependencies (h a))" for ds
    using that
  proof (induction ds)
    case Nil
    then show ?case by simp
  next
    case (Cons d ds)
    then obtain N where N: "\<forall>d \<in> set ds. \<forall>n\<ge>N. \<forall>level. internFindLibDependencies n h d level \<noteq> None"
      by auto
    have "\<exists>M. \<forall>n\<ge>M. \<forall>level. internFindLibDependencies n h d level \<noteq> None"
    proof (cases d)
      case None
      have "\<forall>n\<ge>1. \<forall>level. internFindLibDependencies n h None level \<noteq> None"
      proof (intro allI impI)
        fix n :: nat and level assume "1 \<le> n"
        then obtain k where "n = Suc k" by (cases n) auto
        then show "internFindLibDependencies n h None level \<noteq> None" by simp
      qed
      with None show ?thesis by blast
    next
      case (Some b)
      with Cons.prems have "(b, a) \<in> depends_on h" by (simp add: depends_on_def)
      from less.IH [OF this] Some show ?thesis by simp
    qed
    then obtain M where M: "\<forall>n\<ge>M. \<forall>level. internFindLibDependencies n h d level \<noteq> None" ..
    have "\<forall>d' \<in> set (d # ds). \<forall>n\<ge>max N M. \<forall>level. internFindLibDependencies n h d' level \<noteq> None"
      using N M by auto
    then show ?case ..
  qed
  from this [of "dependencies (h a)"] obtain N where
    N: "\<forall>d \<in> set (dependencies (h a)). \<forall>n\<ge>N. \<forall>level. internFindLibDependencies n h d level \<noteq> None"
    by auto
  have "\<forall>n\<ge>Suc N. \<forall>level. internFindLibDependencies n h (Some a) level \<noteq> None"
  proof (intro allI impI)
    fix n level assume "Suc N \<le> n"
    then obtain k where k: "n = Suc k" "N \<le> k" by (cases n) auto
    with N have "\<forall>r \<in> set (map (\<lambda>l. internFindLibDependencies k h l (level + 1)) (dependencies (h a))). r \<noteq> None"
      by auto
    from extend_all_Some [OF this] k show "internFindLibDependencies n h (Some a) level \<noteq> None"
      by simp
  qed
  then show ?case ..
qed


lemma leaf_first_from_mono:
  "leaf_first_from h S xs \<Longrightarrow> S \<subseteq> T \<Longrightarrow> leaf_first_from h T xs"
proof (induction xs arbitrary: S T)
  case Nil
  then show ?case by simp
next
  case (Cons p ps)
  from Cons.prems have "leaf_first_from h (insert (lib_key h (fst p)) S) ps"
    and "insert (lib_key h (fst p)) S \<subseteq> insert (lib_key h (fst p)) T"
    by auto
  from Cons.IH [OF this] Cons.prems show ?case by auto
qed

lemma leaf_first_from_append:
  "leaf_first_from h S (xs @ ys) =
     (leaf_first_from h S xs \<and> leaf_first_from h (S \<union> lib_key h ` fst ` set xs) ys)"
proof (induction xs arbitrary: S)
  case Nil
  then show ?case by simp
next
  case (Cons p ps)
  have "insert (lib_key h (fst p)) S \<union> lib_key h ` fst ` set ps
          = S \<union> lib_key h ` fst ` set (p # ps)"
    by auto
  with Cons [of "insert (lib_key h (fst p)) S"] show ?case by simp
qed

lemma leaf_first_from_concat:
  "(\<And>x T. x \<in> set xss \<Longrightarrow> leaf_first_from h T x) \<Longrightarrow> leaf_first_from h S (concat xss)"
  by (induction xss arbitrary: S) (auto simp: leaf_first_from_append)

lemma intern_leaf_first:
  "internFindLibDependencies n h l level = Some r
     \<Longrightarrow> leaf_first_from h S r \<and> (\<forall>a. l = Some a \<longrightarrow> a \<in> fst ` set r)"
proof (induction n arbitrary: l level r S)
  case 0
  then show ?case by simp
next
  case (Suc n)
  show ?case
  proof (cases l)
    case None
    with Suc.prems show ?thesis by simp
  next
    case (Some a)
    let ?rs = "map (\<lambda>l. internFindLibDependencies n h l (level + 1)) (dependencies (h a))"
    from Suc.prems Some obtain ll where
      ll: "extend_all ?rs = Some ll" and r: "r = ll @ [(a, level)]"
      by (auto split: option.splits)
    from extend_all_SomeD [OF ll]
    have all: "\<forall>d \<in> set (dependencies (h a)). internFindLibDependencies n h d (level + 1) \<noteq> None"
      and cc: "ll = concat (map the ?rs)"
      by auto
    have sub: "leaf_first_from h T x" if "x \<in> set (map the ?rs)" for x T
    proof -
      from that obtain d where d: "d \<in> set (dependencies (h a))"
        and x: "x = the (internFindLibDependencies n h d (level + 1))" by auto
      with all have "internFindLibDependencies n h d (level + 1) = Some x" by auto
      from Suc.IH [OF this] show ?thesis by blast
    qed
    have lf_ll: "leaf_first_from h S ll"
      unfolding cc by (rule leaf_first_from_concat) (rule sub)
    have deps_in: "lib_key h b \<in> lib_key h ` fst ` set ll" if "Some b \<in> set (dependencies (h a))" for b
    proof -
      from that all obtain x where x: "internFindLibDependencies n h (Some b) (level + 1) = Some x"
        by auto
      from Suc.IH [OF this] have "b \<in> fst ` set x" by blast
      moreover from that x have "x \<in> set (map the ?rs)" by force
      ultimately have "b \<in> fst ` set ll" unfolding cc by auto
      then show ?thesis by blast
    qed
    have "leaf_first_from h S (ll @ [(a, level)])"
      using lf_ll deps_in by (auto simp: leaf_first_from_append)
    with r Some show ?thesis by auto
  qed
qed

lemma extend_all_single: "extend_all [x] = x"
  by (cases x) auto

lemma findLibsDependencies_single:
  "findLibsDependencies limit h [lib] =
     extend_all (map (\<lambda>l. internFindLibDependencies limit h l 0) (dependencies (h lib)))"
  by (simp add: findLibsDependencies_def extend_all_single)

lemma findLibsDependencies_leaf_first:
  assumes "findLibsDependencies limit h [lib] = Some r"
  shows "leaf_first_from h S r \<and>
         (\<forall>b. Some b \<in> set (dependencies (h lib)) \<longrightarrow> lib_key h b \<in> lib_key h ` fst ` set r)"
proof -
  let ?rs = "map (\<lambda>l. internFindLibDependencies limit h l 0) (dependencies (h lib))"
  from assms have ll: "extend_all ?rs = Some r" by (simp add: findLibsDependencies_single)
  from extend_all_SomeD [OF ll]
  have all: "\<forall>d \<in> set (dependencies (h lib)). internFindLibDependencies limit h d 0 \<noteq> None"
    and cc: "r = concat (map the ?rs)"
    by auto
  have sub: "leaf_first_from h T x" if "x \<in> set (map the ?rs)" for x T
  proof -
    from that obtain d where d: "d \<in> set (dependencies (h lib))"
      and x: "x = the (internFindLibDependencies limit h d 0)" by auto
    with all have "internFindLibDependencies limit h d 0 = Some x" by auto
    from intern_leaf_first [OF this] show ?thesis by blast
  qed
  have lf: "leaf_first_from h S r"
    unfolding cc by (rule leaf_first_from_concat) (rule sub)
  have "lib_key h b \<in> lib_key h ` fst ` set r" if "Some b \<in> set (dependencies (h lib))" for b
  proof -
    from that all obtain x where x: "internFindLibDependencies limit h (Some b) 0 = Some x"
      by auto
    from intern_leaf_first [OF this] have "b \<in> fst ` set x" by blast
    moreover from that x have "x \<in> set (map the ?rs)" by force
    ultimately have "b \<in> fst ` set r" unfolding cc by auto
    then show ?thesis by blast
  qed
  with lf show ?thesis by blast
qed

lemma allLibs_loop_leaf_first:
  "allLibs_loop limit h libs = Some r \<Longrightarrow> leaf_first_from h S r"
proof (induction libs arbitrary: r S)
  case Nil
  then show ?case by simp
next
  case (Cons eachlib rest)
  from Cons.prems obtain libdeps r' where
    ld: "findLibsDependencies limit h [eachlib] = Some libdeps"
    and r': "allLibs_loop limit h rest = Some r'"
    and r: "r = libdeps @ [(eachlib, 0)] @ r'"
    by (auto split: option.splits)
  from findLibsDependencies_leaf_first [OF ld, of S] Cons.IH [OF r'] show ?case
    unfolding r by (auto simp: leaf_first_from_append)
qed

lemma firsts_leaf_first:
  "leaf_first_from h S xs \<Longrightarrow> seen \<subseteq> S
     \<Longrightarrow> leaf_first_from h S (firsts (\<lambda>p. lib_key h (fst p)) seen xs)"
proof (induction xs arbitrary: S seen)
  case Nil
  then show ?case by simp
next
  case (Cons p ps)
  show ?case
  proof (cases "lib_key h (fst p) \<in> seen")
    case True
    with Cons.prems have "insert (lib_key h (fst p)) S = S" by auto
    with Cons.prems have "leaf_first_from h S ps" by simp
    from Cons.IH [OF this Cons.prems(2)] True show ?thesis by simp
  next
    case False
    from Cons.prems have "leaf_first_from h (insert (lib_key h (fst p)) S) ps"
      and "insert (lib_key h (fst p)) seen \<subseteq> insert (lib_key h (fst p)) S"
      by auto
    from Cons.IH [OF this] Cons.prems False show ?thesis by simp
  qed
qed

lemma leaf_first_from_index:
  "leaf_first_from h S xs =
     (\<forall>i<length xs. \<forall>d. Some d \<in> set (dependencies (h (fst (xs ! i)))) \<longrightarrow>
        lib_key h d \<in> S \<or> (\<exists>j<i. lib_key h (fst (xs ! j)) = lib_key h d))"
proof (induction xs arbitrary: S)
  case Nil
  then show ?case by simp
next
  case (Cons p ps)
  show ?case
    unfolding leaf_first_from.simps Cons
    by (auto simp: All_less_Suc2 Ex_less_Suc2; metis)
qed

lemma allLibs_loop_terminates:
  assumes "wf (depends_on h)"
  shows "\<exists>N. \<forall>n\<ge>N. allLibs_loop n h libs \<noteq> None"
proof (induction libs)
  case Nil
  then show ?case by simp
next
  case (Cons eachlib rest)
  then obtain N where N: "\<forall>n\<ge>N. allLibs_loop n h rest \<noteq> None" ..
  have "\<exists>M. \<forall>d \<in> set ds. \<forall>n\<ge>M. \<forall>level. internFindLibDependencies n h d level \<noteq> None" for ds
  proof (induction ds)
    case Nil
    then show ?case by simp
  next
    case (Cons d ds)
    then obtain K where K: "\<forall>d \<in> set ds. \<forall>n\<ge>K. \<forall>level. internFindLibDependencies n h d level \<noteq> None" ..
    have "\<exists>M. \<forall>n\<ge>M. \<forall>level. internFindLibDependencies n h d level \<noteq> None"
    proof (cases d)
      case None
      have "\<forall>n\<ge>1. \<forall>level. internFindLibDependencies n h None level \<noteq> None"
      proof (intro allI impI)
        fix n :: nat and level assume "1 \<le> n"
        then obtain k where "n = Suc k" by (cases n) auto
        then show "internFindLibDependencies n h None level \<noteq> None" by simp
      qed
      with None show ?thesis by blast
    next
      case (Some b)
      with intern_terminates [OF assms, of b] show ?thesis by simp
    qed
    then obtain M where M: "\<forall>n\<ge>M. \<forall>level. internFindLibDependencies n h d level \<noteq> None" ..
    have "\<forall>d' \<in> set (d # ds). \<forall>n\<ge>max K M. \<forall>level. internFindLibDependencies n h d' level \<noteq> None"
      using K M by auto
    then show ?case ..
  qed
  from this [of "dependencies (h eachlib)"] obtain M where
    M: "\<forall>d \<in> set (dependencies (h eachlib)). \<forall>n\<ge>M. \<forall>level. internFindLibDependencies n h d level \<noteq> None"
    ..
  have "\<forall>n\<ge>max N M. allLibs_loop n h (eachlib # rest) \<noteq> None"
  proof (intro allI impI)
    fix n assume n: "max N M \<le> n"
    with M have "\<forall>r \<in> set (map (\<lambda>l. internFindLibDependencies n h l 0) (dependencies (h eachlib))). r \<noteq> None"
      by auto
    from extend_all_Some [OF this] have "findLibsDependencies n h [eachlib] \<noteq> None"
      by (simp add: findLibsDependencies_single)
    with N n show "allLibs_loop n h (eachlib # rest) \<noteq> None"
      by (auto split: option.splits)
  qed
  then show ?case ..
qed

text \<open>
  Claim C2. The resolved list of \<^verbatim>\<open>appendLibsToEnv\<close> is \<open>uniqLibs\<close> of the list built by its
  first loop (for each requested library, \<^verbatim>\<open>findLibsDependencies\<close> of it, then the library
  itself). When the dependency graph is finite and acyclic, the recursion ends under
  every large enough recursion limit, and the resolved list is leaf-first: each
  library that an entry at position \<open>i\<close> lists as a dependency appears at a position
  \<open>j < i\<close>. A library appears where an entry with its \<^verbatim>\<open>(name, id)\<close> pair stands, the
  identity \<^verbatim>\<open>uniqLibs\<close> deduplicates by; a \<^verbatim>\<open>None\<close> in a dependency list is no library.
\<close>

theorem resolved_list_leaf_first:
  assumes "finite (depends_on h)" and "acyclic (depends_on h)"
  shows "(\<exists>N. \<forall>limit\<ge>N. allLibs_loop limit h libs \<noteq> None) \<and>
         (\<forall>limit r. allLibs_loop limit h libs = Some r \<longrightarrow>
            (\<forall>i<length (uniqLibs h r).
               \<forall>d. Some d \<in> set (dependencies (h (fst (uniqLibs h r ! i)))) \<longrightarrow>
                 (\<exists>j<i. lib_key h (fst (uniqLibs h r ! j)) = lib_key h d)))"
proof
  from assms have "wf (depends_on h)" by (rule finite_acyclic_wf)
  then show "\<exists>N. \<forall>limit\<ge>N. allLibs_loop limit h libs \<noteq> None"
    by (rule allLibs_loop_terminates)
next
  show "\<forall>limit r. allLibs_loop limit h libs = Some r \<longrightarrow>
            (\<forall>i<length (uniqLibs h r).
               \<forall>d. Some d \<in> set (dependencies (h (fst (uniqLibs h r ! i)))) \<longrightarrow>
                 (\<exists>j<i. lib_key h (fst (uniqLibs h r ! j)) = lib_key h d))"
  proof (rule allI, rule allI, rule impI)
    fix limit r
    assume "allLibs_loop limit h libs = Some r"
    then have "leaf_first_from h {} r" by (rule allLibs_loop_leaf_first)
    then have "leaf_first_from h {} (firsts (\<lambda>p. lib_key h (fst p)) {} r)"
      by (rule firsts_leaf_first) simp
    then have "leaf_first_from h {} (uniqLibs h r)"
      by (simp add: uniqLibs_firsts lib_key_def)
    then show "\<forall>i<length (uniqLibs h r).
               \<forall>d. Some d \<in> set (dependencies (h (fst (uniqLibs h r ! i)))) \<longrightarrow>
                 (\<exists>j<i. lib_key h (fst (uniqLibs h r ! j)) = lib_key h d)"
      by (simp add: leaf_first_from_index)
  qed
qed


lemma demo_depends_on: "depends_on demo_heap = {(0, 1), (1, 2)}"
  by (auto simp: depends_on_def demo_heap_def mk_lib_def split: if_splits)

lemma demo_acyclic: "acyclic (depends_on demo_heap)"
proof -
  have "depends_on demo_heap \<subseteq> {(x, y). x < y}"
    by (simp add: demo_depends_on)
  from wf_subset [OF wf_less this] show ?thesis by (rule wf_acyclic)
qed

theorem resolved_list_leaf_first_witness:
  "finite (depends_on demo_heap) \<and> acyclic (depends_on demo_heap) \<and>
   allLibs_loop 5 demo_heap [2, 1] = Some [(0, 1), (1, 0), (2, 0), (0, 0), (1, 0)] \<and>
   uniqLibs demo_heap [(0, 1), (1, 0), (2, 0), (0, 0), (1, 0)] = [(0, 1), (1, 0), (2, 0)] \<and>
   Some 0 \<in> set (dependencies (demo_heap 1)) \<and>
   (\<exists>j<1. lib_key demo_heap (fst ([(0, 1), (1, 0), (2, 0 :: nat)] ! j)) = lib_key demo_heap 0) \<and>
   Some 1 \<in> set (dependencies (demo_heap 2)) \<and>
   (\<exists>j<2. lib_key demo_heap (fst ([(0, 1), (1, 0), (2, 0 :: nat)] ! j)) = lib_key demo_heap 1)"
proof -
  have f: "finite (depends_on demo_heap)" by (simp add: demo_depends_on)
  have a: "allLibs_loop 5 demo_heap [2, 1] = Some [(0, 1), (1, 0), (2, 0), (0, 0), (1, 0)]"
    by (simp add: findLibsDependencies_def demo_heap_def mk_lib_def eval_nat_numeral)
  have u: "uniqLibs demo_heap [(0, 1), (1, 0), (2, 0), (0, 0), (1, 0)] = [(0, 1), (1, 0), (2, 0)]"
    by (simp add: uniqLibs_def demo_heap_def mk_lib_def)
  have d1: "Some 0 \<in> set (dependencies (demo_heap 1))"
    and d2: "Some 1 \<in> set (dependencies (demo_heap 2))"
    by (simp_all add: demo_heap_def mk_lib_def)
  from resolved_list_leaf_first [OF f demo_acyclic, of "[2, 1]"] a
  have "\<forall>i<length (uniqLibs demo_heap [(0, 1), (1, 0), (2, 0), (0, 0), (1, 0)]).
      \<forall>d. Some d \<in> set (dependencies (demo_heap
               (fst (uniqLibs demo_heap [(0, 1), (1, 0), (2, 0), (0, 0), (1, 0)] ! i)))) \<longrightarrow>
        (\<exists>j<i. lib_key demo_heap
                 (fst (uniqLibs demo_heap [(0, 1), (1, 0), (2, 0), (0, 0), (1, 0)] ! j))
               = lib_key demo_heap d)"
    by blast
  then have all: "\<forall>i<length [(0, 1), (1, 0), (2 :: nat, 0 :: nat)].
      \<forall>d. Some d \<in> set (dependencies (demo_heap (fst ([(0, 1), (1, 0), (2, 0 :: nat)] ! i)))) \<longrightarrow>
        (\<exists>j<i. lib_key demo_heap (fst ([(0, 1), (1, 0), (2, 0 :: nat)] ! j)) = lib_key demo_heap d)"
    unfolding u .
  from all [rule_format, of 1 0] d1
  have e1: "\<exists>j<1. lib_key demo_heap (fst ([(0, 1), (1, 0), (2, 0 :: nat)] ! j)) = lib_key demo_heap 0"
    by simp
  from all [rule_format, of 2 1] d2
  have e2: "\<exists>j<2. lib_key demo_heap (fst ([(0, 1), (1, 0), (2, 0 :: nat)] ! j)) = lib_key demo_heap 1"
    by simp
  from f demo_acyclic a u d1 e1 d2 e2 show ?thesis by blast
qed

subsection \<open>Frame of the environment operations\<close>

lemma env_frame_refl: "env_frame W st st"
  by (simp add: env_frame_def)


lemma env_frame_mono: "env_frame W st st' \<Longrightarrow> W \<subseteq> W' \<Longrightarrow> env_frame W' st st'"
  by (auto simp: env_frame_def)

lemma frame_write:
  "env_frame W st s \<Longrightarrow> x \<in> W \<or> next_env st \<le> x
     \<Longrightarrow> env_frame W st (s\<lparr>envs := (envs s)(x := d)\<rparr>)"
  by (auto simp: env_frame_def)

lemma frame_setitem:
  "env_frame W st s \<Longrightarrow> x \<in> W \<or> next_env st \<le> x \<Longrightarrow> env_frame W st (setitem s x k v)"
  by (auto simp: env_frame_def setitem_def)

lemma frame_stdout_write: "env_frame W st s \<Longrightarrow> env_frame W st (stdout_write s m)"
  by (auto simp: env_frame_def stdout_write_def)

lemma frame_emit: "env_frame W st s \<Longrightarrow> env_frame W st (emit s ev)"
  by (auto simp: env_frame_def emit_def)

lemma frame_call_initOptions: "env_frame W st s \<Longrightarrow> env_frame W st (snd (call_initOptions s l))"
  by (auto simp: env_frame_def call_initOptions_def split: prod.splits)

lemma frame_call_initEnv:
  "env_frame W st s \<Longrightarrow> x \<in> W \<or> next_env st \<le> x \<Longrightarrow> env_frame W st (call_initEnv s l x)"
  by (auto simp: env_frame_def call_initEnv_def)

lemma frame_call_configure:
  "env_frame W st s \<Longrightarrow> x \<in> W \<or> next_env st \<le> x
     \<Longrightarrow> env_frame W st (snd (call_configure s l x))"
  by (auto simp: env_frame_def call_configure_def emit_def split: prod.splits)

lemma frame_call_check:
  "env_frame W st s \<Longrightarrow> x \<in> W \<or> next_env st \<le> x
     \<Longrightarrow> env_frame W st (snd (call_check s l x))"
  by (auto simp: env_frame_def call_check_def emit_def split: prod.splits)

lemma frame_call_postconfigure:
  "env_frame W st s \<Longrightarrow> x \<in> W \<or> next_env st \<le> x
     \<Longrightarrow> env_frame W st (call_postconfigure s l x level)"
  by (auto simp: env_frame_def call_postconfigure_def)

lemma frame_call_PrependENVPath:
  "env_frame W st s \<Longrightarrow> x \<in> W \<or> next_env st \<le> x
     \<Longrightarrow> env_frame W st (call_PrependENVPath s x k v)"
  by (auto simp: env_frame_def call_PrependENVPath_def)

lemma frame_call_Update:
  "env_frame W st s \<Longrightarrow> x \<in> W \<or> next_env st \<le> x \<Longrightarrow> env_frame W st (call_Update s x)"
  by (auto simp: env_frame_def call_Update_def)

lemma frame_set_checkDone: "env_frame W st s \<Longrightarrow> env_frame W st (set_checkDone s l)"
  by (auto simp: env_frame_def set_checkDone_def)

lemma frame_append_libs_error: "env_frame W st s \<Longrightarrow> env_frame W st (append_libs_error s l)"
  by (auto simp: env_frame_def append_libs_error_def)

lemma frame_allLibsChecked:
  "env_frame W st s \<Longrightarrow> env_frame W st (s\<lparr>allLibsChecked := x\<rparr>)"
  by (auto simp: env_frame_def)

lemma frame_fold:
  "(\<And>x s. env_frame W st s \<Longrightarrow> env_frame W st (f x s)) \<Longrightarrow> env_frame W st s0
     \<Longrightarrow> env_frame W st (fold f xs s0)"
  by (induction xs arbitrary: s0) auto

lemma frame_Clone: "env_frame W st s \<Longrightarrow> env_frame W st (snd (Clone s x))"
  by (auto simp: env_frame_def Clone_def)

lemma Clone_fst: "fst (Clone s x) = next_env s"
  by (simp add: Clone_def)

lemma frame_applyOptionsOnEnv:
  assumes "env_frame W st s" and "x \<in> W \<or> next_env st \<le> x"
  shows "env_frame W st (applyOptionsOnEnv s x)"
proof -
  have "env_frame W st (fold (\<lambda>c s. setitem s x c (Str [])) color_keys s')"
    if "env_frame W st s'" for s'
    using that assms(2) by (intro frame_fold frame_setitem)
  with assms show ?thesis
    by (simp add: applyOptionsOnEnv_def Let_def frame_call_PrependENVPath)
qed

lemma frame_if:
  "env_frame W st a \<Longrightarrow> env_frame W st b \<Longrightarrow> env_frame W st (if c then a else b)"
  by simp

lemmas frame_intros =
  frame_allLibsChecked frame_set_checkDone frame_call_check frame_fold
  frame_emit frame_call_configure frame_call_initEnv frame_applyOptionsOnEnv
  frame_call_Update frame_append_libs_error frame_call_initOptions frame_Clone
  frame_if frame_setitem frame_stdout_write frame_call_postconfigure

lemma frame_checkLibrary_probe:
  assumes "env_frame W st s"
  shows "env_frame W st (snd (checkLibrary_probe s l deps))"
proof -
  have n: "next_env st \<le> next_env (emit s (Probe l))"
    using assms by (simp add: env_frame_def emit_def)
  show ?thesis
    unfolding checkLibrary_probe_def Let_def split_def snd_conv Clone_fst
    by (intro frame_intros assms disjI2 n)
qed


lemma frame_checkLibrary:
  assumes "env_frame W st s"
  shows "env_frame W st (snd (checkLibrary limit s l))"
  unfolding checkLibrary_def
  by (auto split: option.splits intro!: frame_intros frame_checkLibrary_probe assms)

lemma frame_configure_loop:
  "env_frame W st s \<Longrightarrow> e \<in> W \<or> next_env st \<le> e
     \<Longrightarrow> env_frame W st (snd (configure_loop limit nm e xs errs s))"
proof (induction xs arbitrary: errs s)
  case Nil
  then show ?case by simp
next
  case (Cons p ps)
  obtain l level where p: "p = (l, level)" by (cases p)
  show ?case
  proof (cases "enabled (heap s l) (envs s e)")
    case False
    have "env_frame W st (stdout_write s (without_message nm (name (heap s l))))"
      using Cons.prems(1) by (rule frame_stdout_write)
    from Cons.IH [OF this Cons.prems(2)] False p show ?thesis by simp
  next
    case True
    obtain res s1 where c: "checkLibrary limit s l = (res, s1)" by (cases "checkLibrary limit s l")
    have f1: "env_frame W st s1"
      using frame_checkLibrary [OF Cons.prems(1), of limit l] c by simp
    show ?thesis
    proof (cases res)
      case (Inl err)
      with True p c f1 show ?thesis by simp
    next
      case (Inr ok)
      let ?st2 = "emit s1 (CheckLibrary l ok)"
      let ?st3 = "snd (call_configure ?st2 l e)"
      let ?c = "fst (call_configure ?st2 l e)"
      let ?r = "if \<not> ?c then (False, ?st3) else call_check (emit ?st3 (Context e)) l e"
      have f3: "env_frame W st ?st3"
        using f1 Cons.prems(2) by (intro frame_intros)
      have f4: "env_frame W st (snd ?r)"
        using f3 Cons.prems(2) by (auto intro!: frame_intros)
      from Cons.IH [OF f4 Cons.prems(2)] True p c Inr show ?thesis
        by (simp add: Let_def split_def)
    qed
  qed
qed

lemma frame_configure_block:
  assumes "env_frame W st s" and "e \<in> W \<or> next_env st \<le> e"
  shows "env_frame W st (snd (configure_block limit nm e allLibs s))"
proof -
  obtain r s' where c: "configure_loop limit nm e allLibs [] s = (r, s')"
    by (cases "configure_loop limit nm e allLibs [] s")
  have f: "env_frame W st s'"
    using frame_configure_loop [OF assms, of limit nm allLibs "[]"] c by simp
  show ?thesis
  proof (cases r)
    case (Inl err)
    with c f show ?thesis by (simp add: configure_block_def)
  next
    case (Inr errs)
    show ?thesis
      unfolding configure_block_def c Inr Let_def
      using f assms(2) by (auto intro!: frame_intros)
  qed
qed

lemma frame_snd_pair: "env_frame W st s \<Longrightarrow> env_frame W st (snd (x, s))"
  by simp

lemma frame_snd_if:
  "env_frame W st (snd a) \<Longrightarrow> env_frame W st (snd b) \<Longrightarrow> env_frame W st (snd (if c then a else b))"
  by simp

lemma frame_snd_case_option:
  "env_frame W st (snd a) \<Longrightarrow> (\<And>x. env_frame W st (snd (f x)))
     \<Longrightarrow> env_frame W st (snd (case v of None \<Rightarrow> a | Some x \<Rightarrow> f x))"
  by (cases v) auto

lemma frame_snd_case_result:
  "env_frame W st (snd r) \<Longrightarrow> (\<And>u s7. env_frame W st s7 \<Longrightarrow> env_frame W st (snd (g u s7)))
     \<Longrightarrow> env_frame W st (snd (case r of (Inl err, st7) \<Rightarrow> (Inl err, st7)
                                          | (Inr u, st7) \<Rightarrow> g u st7))"
  by (cases r; cases "fst r") auto

lemma frame_appendLibsToEnv:
  assumes "env_frame W st s" and "e \<in> W \<or> next_env st \<le> e"
  shows "env_frame W st (snd (appendLibsToEnv limit s e libs nm))"
  unfolding appendLibsToEnv_def Let_def split_def
  by (intro frame_snd_if frame_snd_case_option frame_snd_case_result [unfolded split_def]
        frame_snd_pair frame_configure_block frame_intros assms)

text \<open>
  Claim C9. \<^verbatim>\<open>createEnv\<close> works on a clone of the shared base environment: after the
  call \<^verbatim>\<open>self.env\<close> is the same object with the same dictionary (so every key it held
  has the value it had), as is every environment that existed before the call, and
  the environment returned is an object other than \<^verbatim>\<open>self.env\<close>. This holds whether
  the call returns or ends in an exception. The methods of the library checkers act
  on the environment they are given, as their interface says.
\<close>

theorem createEnv_base_unchanged:
  assumes "env st < next_env st"
  shows "env (snd (createEnv limit st libs nm)) = env st \<and>
         envs (snd (createEnv limit st libs nm)) (env st) = envs st (env st) \<and>
         (\<forall>x<next_env st. envs (snd (createEnv limit st libs nm)) x = envs st x) \<and>
         (\<forall>a. fst (createEnv limit st libs nm) = Inr a \<longrightarrow> a \<noteq> env st)"
proof -
  define st1 where "st1 = snd (Clone st (env st))"
  have c: "Clone st (env st) = (next_env st, st1)"
    by (simp add: st1_def Clone_def)
  have f1: "env_frame {} st st1"
    unfolding st1_def by (intro frame_intros env_frame_refl)
  let ?r = "appendLibsToEnv limit st1 (next_env st) (fold (\<lambda>lib ls. lib # ls) (commonLibs st1) libs) nm"
  have r: "createEnv limit st libs nm = ?r"
    by (simp add: createEnv_def c)
  have "env_frame {} st (snd ?r)"
    using f1 by (rule frame_appendLibsToEnv) simp
  with assms have a: "env (snd ?r) = env st"
    and b: "\<forall>x<next_env st. envs (snd ?r) x = envs st x"
    by (auto simp: env_frame_def)
  have ret: "fst ?r = Inr a \<Longrightarrow> a = next_env st" for a
    by (auto simp: appendLibsToEnv_def Let_def split: if_splits option.splits prod.splits sum.splits)
  from a b ret assms show ?thesis unfolding r by auto
qed

theorem createEnv_base_unchanged_witness:
  "env demo_project < next_env demo_project \<and>
   env (snd (createEnv 5 demo_project [2] ''prog'')) = 0 \<and>
   envs (snd (createEnv 5 demo_project [2] ''prog'')) 0 = demo_base \<and>
   fst (createEnv 5 demo_project [2] ''prog'') \<noteq> Inr 0"
proof -
  have h: "env demo_project < next_env demo_project" by (simp add: demo_project_def)
  have e: "env demo_project = 0" "envs demo_project 0 = demo_base"
    by (simp_all add: demo_project_def)
  from createEnv_base_unchanged [OF h, of 5 "[2]" "''prog''"] h e show ?thesis by auto
qed

subsection \<open>Degraded targets\<close>

lemma fold_keeps:
  "(\<And>x s. P (f x s) = P s) \<Longrightarrow> P (fold f xs s) = P s"
  by (induction xs arbitrary: s) auto

lemma end'_exit:
  assumes "libs_error st \<noteq> []"
  shows "(fst (end' st) = Inl (SystemExit 1)) =
         (\<not> truthy (envs st (env st) ''ignore_configure_errors''))"
proof -
  have e: "env (fold (\<lambda>l s. print_lib_error s l) ls s) = env s" for ls s
    by (rule fold_keeps) (simp add: print_lib_error_def Let_def print_def stdout_write_def)
  have es: "envs (fold (\<lambda>l s. print_lib_error s l) ls s) = envs s" for ls s
    by (rule fold_keeps) (simp add: print_lib_error_def Let_def print_def stdout_write_def)
  show ?thesis
    using assms
    by (simp add: end'_def Let_def e es call_Alias_def stdout_write_def split: prod.splits sum.splits)
qed

text \<open>
  Claim C4, as the code has it. \<^verbatim>\<open>declareTarget\<close> does not read the flag
  \<^verbatim>\<open>ignore_configure_errors\<close>: a target whose environment carries a non-empty list of
  missing dependencies is recorded in \<^verbatim>\<open>removedFromDefaultTargets\<close> and is not added to
  the alias \<^verbatim>\<open>all\<close>, whatever the flag; a target without missing dependencies is added
  to \<^verbatim>\<open>all\<close>. The flag is read by \<^verbatim>\<open>end\<close> only: when some library failed, the run is
  aborted by \<^verbatim>\<open>Exit(1)\<close> exactly when the flag is not set, and with the flag set the run
  goes on with the targets that are left in \<^verbatim>\<open>all\<close>.
\<close>

theorem declareTarget_degraded:
  "(truthy (envs st localEnv ''SconsProject_missingDependencies'') \<longrightarrow>
      removedFromDefaultTargets (declareTarget st localEnv target targetName)
        (if targetName \<noteq> None \<and> targetName \<noteq> Some [] then the targetName else target)
        = Some (strs_of (envs st localEnv ''SconsProject_missingDependencies'')) \<and>
      Alias (declareTarget st localEnv target targetName) = Alias st) \<and>
   (\<not> truthy (envs st localEnv ''SconsProject_missingDependencies'') \<longrightarrow>
      Alias (declareTarget st localEnv target targetName) ''all'' = Alias st ''all'' @ [target] \<and>
      removedFromDefaultTargets (declareTarget st localEnv target targetName)
        = removedFromDefaultTargets st) \<and>
   (libs_error st \<noteq> [] \<longrightarrow>
      (fst (end' st) = Inl (SystemExit 1)) =
      (\<not> truthy (envs st (env st) ''ignore_configure_errors'')))"
proof (intro conjI impI)
  assume "libs_error st \<noteq> []"
  then show "(fst (end' st) = Inl (SystemExit 1)) =
      (\<not> truthy (envs st (env st) ''ignore_configure_errors''))"
    by (rule end'_exit)
qed (auto simp: declareTarget_def Let_def split: option.splits)

text \<open>
  With the flag set and \<open>A\<close> missing, the target \<open>prog\<close> is recorded as removed and is not in
  the alias \<^verbatim>\<open>all\<close>: the flag does not put a degraded target back into the default build.
\<close>

theorem declareTarget_ignore_flag_counterexample:
  "truthy (envs demo_degraded (env demo_degraded) ''ignore_configure_errors'') \<and>
   strs_of (envs demo_degraded 1 ''SconsProject_missingDependencies'') = [''A''] \<and>
   ''prog'' \<notin> set (Alias (declareTarget demo_degraded 1 ''prog'' None) ''all'') \<and>
   removedFromDefaultTargets (declareTarget demo_degraded 1 ''prog'' None) ''prog'' = Some [''A'']"
  by (simp add: declareTarget_def demo_degraded_def demo_project_def demo_base_def)

theorem declareTarget_degraded_witness:
  "truthy (envs demo_degraded 1 ''SconsProject_missingDependencies'') \<and>
   libs_error demo_degraded \<noteq> [] \<and>
   removedFromDefaultTargets (declareTarget demo_degraded 1 ''prog'' None) ''prog'' = Some [''A''] \<and>
   Alias (declareTarget demo_degraded 1 ''prog'' None) = Alias demo_degraded \<and>
   fst (end' demo_degraded) \<noteq> Inl (SystemExit 1)"
proof -
  have a: "truthy (envs demo_degraded 1 ''SconsProject_missingDependencies'')"
    and b: "libs_error demo_degraded \<noteq> []"
    and c: "truthy (envs demo_degraded (env demo_degraded) ''ignore_configure_errors'')"
    and d: "strs_of (envs demo_degraded 1 ''SconsProject_missingDependencies'') = [''A'']"
    by (simp_all add: demo_degraded_def demo_project_def demo_base_def)
  from declareTarget_degraded [of demo_degraded 1 "''prog''" None] a b c d show ?thesis
    by simp
qed

subsection \<open>Target declarations\<close>

text \<open>
  Claim C8. Each of \<^verbatim>\<open>StaticLibrary\<close>, \<^verbatim>\<open>SharedLibrary\<close>, \<^verbatim>\<open>Program\<close>, \<^verbatim>\<open>UnitTest\<close> and
  \<^verbatim>\<open>ScriptTests\<close> whose list of source files (the sources given, then those found in
  the directories given) is empty raises \<^verbatim>\<open>RuntimeError\<close> and leaves the whole state as it
  was: no environment was cloned or changed, no artifact built, no alias or registry
  entry made.
\<close>

theorem no_sources_raises:
  "(sourcesFiles_of st a True = [] \<longrightarrow>
      StaticLibrary limit st target a = (Inl (no_sources target), st) \<and>
      SharedLibrary limit st target a = (Inl (no_sources target), st) \<and>
      Program limit st target a = (Inl (no_sources target), st) \<and>
      UnitTest limit st utarget a =
        (Inl (no_sources (case utarget of None \<Rightarrow> str_list (getDirs0 st) | Some t \<Rightarrow> t)), st)) \<and>
   (sourcesFiles_of st a (recursive_arg a) = [] \<longrightarrow>
      ScriptTests limit st starget a =
        (Inl (no_sources (str_list (case starget of None \<Rightarrow> getDirs0 st | Some t \<Rightarrow> t))), st))"
  by (simp add: StaticLibrary_def SharedLibrary_def Program_def UnitTest_def ScriptTests_def Let_def)

lemma repr_core: "repr ''core'' = [CHR 0x27] @ ''core'' @ [CHR 0x27]"
  by (simp add: repr_def escape_def printable_def Let_def)

theorem no_sources_raises_witness:
  "sourcesFiles_of demo_project demo_args True = [] \<and>
   sourcesFiles_of demo_project demo_args (recursive_arg demo_args) = [] \<and>
   StaticLibrary 5 demo_project ''core'' demo_args
     = (Inl (RuntimeError ''No source files for the target: core''), demo_project) \<and>
   SharedLibrary 5 demo_project ''core'' demo_args
     = (Inl (RuntimeError ''No source files for the target: core''), demo_project) \<and>
   Program 5 demo_project ''core'' demo_args
     = (Inl (RuntimeError ''No source files for the target: core''), demo_project) \<and>
   UnitTest 5 demo_project (Some ''core'') demo_args
     = (Inl (RuntimeError ''No source files for the target: core''), demo_project) \<and>
   ScriptTests 5 demo_project (Some [''core'']) demo_args
     = (Inl (RuntimeError (''No source files for the target: ['' @ [CHR 0x27] @ ''core''
                            @ [CHR 0x27] @ '']'')), demo_project)"
proof -
  have a: "sourcesFiles_of demo_project demo_args True = []"
    and b: "sourcesFiles_of demo_project demo_args (recursive_arg demo_args) = []"
    by (simp_all add: sourcesFiles_of_def demo_args_def)
  from no_sources_raises [of demo_project demo_args 5 "''core''" "Some ''core''" "Some [''core'']"] a b
  show ?thesis by (simp add: no_sources_def str_list_def repr_core)
qed

text \<open>
  Claim C7, on the code as it runs. In the loop of \<^verbatim>\<open>ScriptTests\<close>, a script that is
  checked for its dependencies never gets its leading comment read: the builtin \<^verbatim>\<open>file\<close>
  is not a name of Python 3, so \<^verbatim>\<open>NameError\<close> ends the run at this script in every mode,
  production included, whatever the script declares and whatever the registry holds,
  and the state is the one the script was reached in. Neither the error that names the
  missing dependencies and the known targets nor the silent skip of the production mode
  happens.
\<close>

theorem ScriptTests_checked_script_NameError:
  "checkDependencies_arg a \<Longrightarrow>
   ScriptTests_loop limit a l_target (s # rest) allDst dst st = (Inl (NameError ''file''), st)"
  by (simp add: script_dependencies_def file'_def)

theorem ScriptTests_checked_script_NameError_witness:
  "checkDependencies_arg (demo_args\<lparr>sources_arg := [''test_a.py'']\<rparr>) \<and>
   allTargets demo_project = [] \<and>
   str_of (envs demo_project (env demo_project) ''mode'') = ''debug'' \<and>
   ScriptTests 5 demo_project None (demo_args\<lparr>sources_arg := [''test_a.py'']\<rparr>)
     = (Inl (NameError ''file''), demo_project) \<and>
   str_of (envs demo_production (env demo_production) ''mode'') = ''production'' \<and>
   ScriptTests 5 demo_production None (demo_args\<lparr>sources_arg := [''test_a.py'']\<rparr>)
     = (Inl (NameError ''file''), demo_production)"
proof -
  let ?a = "demo_args\<lparr>sources_arg := [''test_a.py'']\<rparr>"
  have c: "checkDependencies_arg ?a" by (simp add: demo_args_def)
  have at: "allTargets demo_project = []"
    and md: "str_of (envs demo_production (env demo_production) ''mode'') = ''production''"
            "str_of (envs demo_project (env demo_project) ''mode'') = ''debug''"
    by (simp_all add: demo_production_def demo_project_def demo_base_def)
  have src: "sourcesFiles_of st ?a r = [''test_a.py'']" for st r
    by (simp add: sourcesFiles_of_def demo_args_def)
  have 1: "ScriptTests 5 demo_project None ?a = (Inl (NameError ''file''), demo_project)"
    using ScriptTests_checked_script_NameError [OF c, of 5 "getDirs0 demo_project" "''test_a.py''"
              "[]" "[]" None demo_project]
    by (simp add: ScriptTests_def src)
  have 2: "ScriptTests 5 demo_production None ?a = (Inl (NameError ''file''), demo_production)"
    using ScriptTests_checked_script_NameError [OF c, of 5 "getDirs0 demo_production" "''test_a.py''"
              "[]" "[]" None demo_production]
    by (simp add: ScriptTests_def src)
  from c at md 1 2 show ?thesis by simp
qed

subsection \<open>Probing each library once\<close>

lemma probes_of_append: "probes_of (xs @ ys) = probes_of xs @ probes_of ys"
  by (induction xs rule: probes_of.induct) auto

lemma memo_refl: "memo_same st st"
  by (simp add: memo_same_def)

lemma memo_emit_Configure: "memo_same st s \<Longrightarrow> memo_same st (emit s (Configure l e b))"
  by (simp add: memo_same_def emit_def probes_of_append)

lemma memo_emit_Check: "memo_same st s \<Longrightarrow> memo_same st (emit s (Check l e b))"
  by (simp add: memo_same_def emit_def probes_of_append)

lemma memo_emit_Context: "memo_same st s \<Longrightarrow> memo_same st (emit s (Context e))"
  by (simp add: memo_same_def emit_def probes_of_append)

lemma memo_emit_CheckLibrary: "memo_same st s \<Longrightarrow> memo_same st (emit s (CheckLibrary l b))"
  by (simp add: memo_same_def emit_def probes_of_append)

lemma memo_setitem: "memo_same st s \<Longrightarrow> memo_same st (setitem s x k v)"
  by (simp add: memo_same_def setitem_def)

lemma memo_stdout_write: "memo_same st s \<Longrightarrow> memo_same st (stdout_write s m)"
  by (simp add: memo_same_def stdout_write_def)

lemma memo_call_initOptions: "memo_same st s \<Longrightarrow> memo_same st (snd (call_initOptions s l))"
  by (simp add: memo_same_def call_initOptions_def split: prod.splits)

lemma memo_call_initEnv: "memo_same st s \<Longrightarrow> memo_same st (call_initEnv s l x)"
  by (simp add: memo_same_def call_initEnv_def)

lemma memo_call_configure: "memo_same st s \<Longrightarrow> memo_same st (snd (call_configure s l x))"
  by (simp add: memo_same_def call_configure_def emit_def probes_of_append split: prod.splits)

lemma memo_call_check: "memo_same st s \<Longrightarrow> memo_same st (snd (call_check s l x))"
  by (simp add: memo_same_def call_check_def emit_def probes_of_append split: prod.splits)

lemma memo_call_postconfigure: "memo_same st s \<Longrightarrow> memo_same st (call_postconfigure s l x level)"
  by (simp add: memo_same_def call_postconfigure_def)

lemma memo_call_PrependENVPath: "memo_same st s \<Longrightarrow> memo_same st (call_PrependENVPath s x k v)"
  by (simp add: memo_same_def call_PrependENVPath_def)

lemma memo_call_Update: "memo_same st s \<Longrightarrow> memo_same st (call_Update s x)"
  by (simp add: memo_same_def call_Update_def)

lemma memo_append_libs_error: "memo_same st s \<Longrightarrow> memo_same st (append_libs_error s l)"
  by (simp add: memo_same_def append_libs_error_def)

lemma memo_Clone: "memo_same st s \<Longrightarrow> memo_same st (snd (Clone s x))"
  by (simp add: memo_same_def Clone_def)

lemma memo_if: "memo_same st a \<Longrightarrow> memo_same st b \<Longrightarrow> memo_same st (if c then a else b)"
  by simp

lemma memo_fold:
  "(\<And>x s. memo_same st s \<Longrightarrow> memo_same st (f x s)) \<Longrightarrow> memo_same st s0
     \<Longrightarrow> memo_same st (fold f xs s0)"
  by (induction xs arbitrary: s0) auto

lemma memo_applyOptionsOnEnv:
  assumes "memo_same st s"
  shows "memo_same st (applyOptionsOnEnv s x)"
  unfolding applyOptionsOnEnv_def Let_def
  by (intro memo_if memo_fold memo_setitem memo_call_PrependENVPath assms)

lemmas memo_intros =
  memo_emit_Configure memo_emit_Check memo_emit_Context memo_emit_CheckLibrary
  memo_setitem memo_stdout_write memo_call_initOptions memo_call_initEnv
  memo_call_configure memo_call_check memo_call_postconfigure memo_call_PrependENVPath
  memo_call_Update memo_append_libs_error memo_Clone memo_if memo_fold memo_applyOptionsOnEnv

text \<open>The state in which the probe sets its memo.\<close>

lemma probe_memo:
  "\<exists>X b. checkLibrary_probe s l deps =
            (Inr b, (set_checkDone X l)\<lparr>allLibsChecked :=
                       allLibsChecked (set_checkDone X l) @ [name (heap (set_checkDone X l) l)]\<rparr>)
         \<and> memo_same (emit s (Probe l)) X \<and> env_frame {} s X"
  unfolding checkLibrary_probe_def Let_def split_def Clone_fst
  apply (rule exI, rule exI, rule conjI, rule refl, rule conjI)
  subgoal by (intro memo_intros memo_refl)
  subgoal by (intro frame_intros env_frame_refl disjI2) (simp_all add: emit_def)
  done


lemma frame_lib_fields:
  assumes "env_frame W s X"
  shows "name (heap X l) = name (heap s l)" and "id' (heap X l) = id' (heap s l)"
    and "sconsNode (heap X l) = sconsNode (heap s l)"
    and "dependencies (heap X l) = dependencies (heap s l)"
    and "enabled (heap X l) = enabled (heap s l)"
proof -
  from assms have e: "(heap X l)\<lparr>checkDone := False\<rparr> = (heap s l)\<lparr>checkDone := False\<rparr>"
    by (simp add: env_frame_def)
  from arg_cong [OF e, of name] show "name (heap X l) = name (heap s l)" by simp
  from arg_cong [OF e, of id'] show "id' (heap X l) = id' (heap s l)" by simp
  from arg_cong [OF e, of sconsNode] show "sconsNode (heap X l) = sconsNode (heap s l)" by simp
  from arg_cong [OF e, of dependencies] show "dependencies (heap X l) = dependencies (heap s l)" by simp
  from arg_cong [OF e, of enabled] show "enabled (heap X l) = enabled (heap s l)" by simp
qed

lemma checkLibrary_step:
  assumes "checkLibrary limit s l = (Inr b, s')"
  shows "probes_of (trace s') = probes_of (trace s) @
           (if \<not> checkDone (heap s l) \<and> \<not> truthy_node (sconsNode (heap s l)) \<and>
               name (heap s l) \<notin> set (allLibsChecked s) \<and> needCheck s then [l] else [])"
    and "allLibsChecked s' = allLibsChecked s @
           (if \<not> checkDone (heap s l) \<and> \<not> truthy_node (sconsNode (heap s l)) \<and>
               name (heap s l) \<notin> set (allLibsChecked s) then [name (heap s l)] else [])"
    and "\<forall>l'. checkDone (heap s' l') =
           (checkDone (heap s l') \<or> (l' = l \<and> \<not> truthy_node (sconsNode (heap s l))))"
proof -
  consider (already) "checkDone (heap s l)"
    | (internal) "\<not> checkDone (heap s l)" "truthy_node (sconsNode (heap s l))"
    | (known) "\<not> checkDone (heap s l)" "\<not> truthy_node (sconsNode (heap s l))"
        "name (heap s l) \<in> set (allLibsChecked s)"
    | (nocheck) "\<not> checkDone (heap s l)" "\<not> truthy_node (sconsNode (heap s l))"
        "name (heap s l) \<notin> set (allLibsChecked s)" "\<not> needCheck s"
    | (probe) "\<not> checkDone (heap s l)" "\<not> truthy_node (sconsNode (heap s l))"
        "name (heap s l) \<notin> set (allLibsChecked s)" "needCheck s"
    by blast
  then have "probes_of (trace s') = probes_of (trace s) @
           (if \<not> checkDone (heap s l) \<and> \<not> truthy_node (sconsNode (heap s l)) \<and>
               name (heap s l) \<notin> set (allLibsChecked s) \<and> needCheck s then [l] else [])
     \<and> allLibsChecked s' = allLibsChecked s @
           (if \<not> checkDone (heap s l) \<and> \<not> truthy_node (sconsNode (heap s l)) \<and>
               name (heap s l) \<notin> set (allLibsChecked s) then [name (heap s l)] else [])
     \<and> (\<forall>l'. checkDone (heap s' l') =
           (checkDone (heap s l') \<or> (l' = l \<and> \<not> truthy_node (sconsNode (heap s l)))))"
  proof cases
    case already
    with assms show ?thesis by (auto simp: checkLibrary_def)
  next
    case internal
    with assms show ?thesis by (auto simp: checkLibrary_def)
  next
    case known
    with assms show ?thesis by (auto simp: checkLibrary_def set_checkDone_def)
  next
    case nocheck
    with assms show ?thesis by (auto simp: checkLibrary_def set_checkDone_def)
  next
    case probe
    with assms obtain ll where
      p: "checkLibrary_probe s l (uniqLibs (heap s) ll) = (Inr b, s')"
      by (auto simp: checkLibrary_def split: option.splits)
    from probe_memo [of s l "uniqLibs (heap s) ll"] p obtain X where
      s': "s' = (set_checkDone X l)\<lparr>allLibsChecked :=
                       allLibsChecked (set_checkDone X l) @ [name (heap (set_checkDone X l) l)]\<rparr>"
      and m: "memo_same (emit s (Probe l)) X" and f: "env_frame {} s X"
      by auto
    from m have m1: "probes_of (trace X) = probes_of (trace s) @ [l]"
      and m2: "allLibsChecked X = allLibsChecked s"
      and m3: "\<forall>l'. checkDone (heap X l') = checkDone (heap s l')"
      by (simp_all add: memo_same_def emit_def probes_of_append)
    from frame_lib_fields(1) [OF f, of l] have n: "name (heap X l) = name (heap s l)" .
    from probe m1 m2 m3 n show ?thesis
      unfolding s' by (auto simp: set_checkDone_def)
  qed
  then show "probes_of (trace s') = probes_of (trace s) @
           (if \<not> checkDone (heap s l) \<and> \<not> truthy_node (sconsNode (heap s l)) \<and>
               name (heap s l) \<notin> set (allLibsChecked s) \<and> needCheck s then [l] else [])"
    and "allLibsChecked s' = allLibsChecked s @
           (if \<not> checkDone (heap s l) \<and> \<not> truthy_node (sconsNode (heap s l)) \<and>
               name (heap s l) \<notin> set (allLibsChecked s) then [name (heap s l)] else [])"
    and "\<forall>l'. checkDone (heap s' l') =
           (checkDone (heap s l') \<or> (l' = l \<and> \<not> truthy_node (sconsNode (heap s l))))"
    by blast+
qed
















lemma demo_probe_fst:
  "fst (checkLibrary_probe demo_project 6 []) = Inr True"
  unfolding checkLibrary_probe_def Let_def split_def Clone_fst
  by (simp add: call_configure_def call_check_def call_initOptions_def call_initEnv_def
      call_Update_def applyOptionsOnEnv_def call_PrependENVPath_def emit_def Clone_def
      set_checkDone_def append_libs_error_def demo_project_def demo_heap_def mk_lib_def
      demo_base_def Let_def split_def)

lemma demo_checkLibrary_6:
  "checkLibrary 5 demo_project 6 = checkLibrary_probe demo_project 6 []"
proof -
  have h: "heap demo_project = demo_heap" by (simp add: demo_project_def)
  have l: "heap demo_project 6 = mk_lib ''plugin'' 0 [] (Some []) True True"
    by (simp add: h demo_heap_def)
  have f: "findLibsDependencies 5 (heap demo_project) [6] = Some []"
    by (simp add: findLibsDependencies_single l mk_lib_def)
  have n: "needCheck demo_project"
    by (simp add: needCheck_def demo_project_def demo_base_def)
  have a: "allLibsChecked demo_project = []" by (simp add: demo_project_def)
  show ?thesis
    by (simp add: checkLibrary_def f n a uniqLibs_def) (simp add: l mk_lib_def)
qed

text \<open>
  Claim C6 as stated fails for a handle that is set but empty: the library at address 6
  has \<^verbatim>\<open>sconsNode\<close> set, the test \<^verbatim>\<open>if lib.sconsNode:\<close> is false for it, and the library
  is probed.
\<close>

theorem checkLibrary_empty_handle_probed_counterexample:
  "sconsNode (heap demo_project 6) = Some [] \<and>
   fst (checkLibrary 5 demo_project 6) = Inr True \<and>
   probes_of (trace (snd (checkLibrary 5 demo_project 6))) = [6]"
proof -
  have n: "sconsNode (heap demo_project 6) = Some []"
    by (simp add: demo_project_def demo_heap_def mk_lib_def)
  have r1: "fst (checkLibrary 5 demo_project 6) = Inr True"
    by (simp only: demo_checkLibrary_6 demo_probe_fst)
  then have r: "checkLibrary 5 demo_project 6 = (Inr True, snd (checkLibrary 5 demo_project 6))"
    by (simp add: prod_eq_iff)
  have "probes_of (trace (snd (checkLibrary 5 demo_project 6))) = [6]"
    using checkLibrary_step(1) [OF r]
    by (simp add: n needCheck_def demo_project_def demo_heap_def mk_lib_def demo_base_def)
  with n r1 show ?thesis by simp
qed

end
